theory Spec2Isabelle
  imports Main
begin

section \<open>Python values used by \<open>ace_hunter/splunk.py\<close>\<close>

text \<open>
  A Python \<open>str\<close> is modelled as a \<open>string\<close>, one \<open>char\<close> per code point; the model
  covers the code points below 256 (Latin-1), which is where every literal of the module
  lives.  Exceptions are values of \<open>py_error\<close>; a function that can raise returns
  \<open>py_error + 'a\<close> with \<open>Inl\<close> for the exception.
\<close>

datatype py_error =
    AssertionError
  | ValueError
  | OverflowError
  | TypeError
  | KeyError
  | IndexError
  | ParserError
  | ZoneInfoNotFoundError

definition bind_err :: "py_error + 'a \<Rightarrow> ('a \<Rightarrow> py_error + 'b) \<Rightarrow> py_error + 'b" where
  "bind_err r f = (case r of Inl e \<Rightarrow> Inl e | Inr v \<Rightarrow> f v)"

subsection \<open>Strings\<close>

definition isspace :: "char \<Rightarrow> bool" where
  \<comment> \<open>\<open>str.isspace\<close> on one code point; the same class as \<open>\s\<close> of \<open>re\<close> on a \<open>str\<close>
      pattern and as the characters \<open>str.lstrip\<close> discards.\<close>
  "isspace c =
     (let n = (of_char c :: nat)
      in (9 \<le> n \<and> n \<le> 13) \<or> (28 \<le> n \<and> n \<le> 32) \<or> n = 133 \<or> n = 160)"

definition lower_char :: "char \<Rightarrow> char" where
  \<comment> \<open>\<open>str.lower\<close> on one code point below 256.\<close>
  "lower_char c =
     (let n = (of_char c :: nat)
      in if (65 \<le> n \<and> n \<le> 90) \<or> (192 \<le> n \<and> n \<le> 214) \<or> (216 \<le> n \<and> n \<le> 222)
         then char_of (n + 32) else c)"

definition lower :: "string \<Rightarrow> string" where
  "lower s = map lower_char s"

definition lstrip :: "string \<Rightarrow> string" where
  "lstrip s = dropWhile isspace s"

definition startswith :: "string \<Rightarrow> string \<Rightarrow> bool" where
  "startswith s p = (take (length p) s = p)"

fun split :: "char \<Rightarrow> string \<Rightarrow> string list" where
  \<comment> \<open>\<open>s.split(sep)\<close> for a one-character separator: never empty, \<open>''''\<close> gives \<open>['''']\<close>.\<close>
  "split sep [] = [[]]"
| "split sep (c # cs) =
     (if c = sep then [] # split sep cs
      else (c # hd (split sep cs)) # tl (split sep cs))"

subsection \<open>\<open>int(str)\<close>\<close>

definition int_space :: "char \<Rightarrow> bool" where
  \<comment> \<open>the characters \<open>int\<close> discards around the number: the six of C's \<open>isspace\<close>, and
      the whitespace beyond ASCII; not the separators U+001C to U+001F\<close>
  "int_space c =
     (let n = (of_char c :: nat)
      in (9 \<le> n \<and> n \<le> 13) \<or> n = 32 \<or> n = 133 \<or> n = 160)"

definition int_strip :: "string \<Rightarrow> string" where
  "int_strip s = rev (dropWhile int_space (rev (dropWhile int_space s)))"

definition isdigit :: "char \<Rightarrow> bool" where
  "isdigit c = (let n = (of_char c :: nat) in 48 \<le> n \<and> n \<le> 57)"

definition digit_value :: "char \<Rightarrow> int" where
  "digit_value c = int (of_char c) - 48"

definition decimal :: "string \<Rightarrow> int" where
  "decimal ds = foldl (\<lambda>acc c. 10 * acc + digit_value c) 0 ds"

definition max_str_digits :: nat where
  \<comment> \<open>\<open>sys.int_info.default_max_str_digits\<close>\<close>
  "max_str_digits = 4300"

definition py_int :: "string \<Rightarrow> py_error + int" where
  \<comment> \<open>\<open>int(s)\<close> in base 10: surrounding whitespace is dropped, one sign is allowed, the
      digits may be grouped by single underscores; anything else is a \<open>ValueError\<close>.\<close>
  "py_int s =
     (let t = int_strip s;
          neg = (t \<noteq> [] \<and> hd t = CHR ''-'');
          body = (if t \<noteq> [] \<and> (hd t = CHR ''-'' \<or> hd t = CHR ''+'') then tl t else t);
          groups = split CHR ''_'' body;
          ds = concat groups
      in if (\<exists>g \<in> set groups. g = []) \<or> (\<exists>c \<in> set ds. \<not> isdigit c) then Inl ValueError
         else if max_str_digits < length ds then Inl ValueError
         else Inr (if neg then - decimal ds else decimal ds))"

subsection \<open>\<open>datetime.timedelta\<close>\<close>

record timedelta =
  days :: int
  seconds :: int
  microseconds :: int

definition total_seconds :: "timedelta \<Rightarrow> int" where
  \<comment> \<open>whole seconds; \<open>microseconds\<close> is 0 in every duration this module builds\<close>
  "total_seconds td = days td * 86400 + seconds td"

definition new_timedelta :: "int \<Rightarrow> int \<Rightarrow> int \<Rightarrow> int \<Rightarrow> py_error + timedelta" where
  \<comment> \<open>\<open>datetime.timedelta(days=d, seconds=s, minutes=m, hours=h)\<close>: the sum is normalised
      to \<open>0 \<le> seconds < 86400\<close>, and a day count beyond \<open>timedelta.max\<close> raises.\<close>
  "new_timedelta d s m h =
     (let total = d * 86400 + s + m * 60 + h * 3600;
          nd = total div 86400
      in if nd < - 999999999 \<or> 999999999 < nd then Inl OverflowError
         else Inr \<lparr>days = nd, seconds = total mod 86400, microseconds = 0\<rparr>)"

subsection \<open>\<open>datetime.datetime\<close> and \<open>strftime\<close>\<close>

record datetime =
  \<comment> \<open>a naive \<open>datetime\<close>; its constructor keeps \<open>year\<close> within 1 to 9999, \<open>month\<close>
      within 1 to 12, \<open>day\<close> within the month, \<open>hour\<close> below 24, \<open>minute\<close> and \<open>second\<close>
      below 60\<close>
  year :: nat
  month :: nat
  day :: nat
  hour :: nat
  minute :: nat
  second :: nat
  microsecond :: nat

definition digit_char :: "nat \<Rightarrow> char" where
  "digit_char n = ''0123456789'' ! (n mod 10)"

definition zero_padded :: "nat \<Rightarrow> nat \<Rightarrow> string" where
  \<comment> \<open>the last \<open>w\<close> decimal digits of \<open>n\<close>, which is \<open>n\<close> left-padded with zeros when
      \<open>n < 10 ^ w\<close> (every field of a \<open>datetime\<close> is)\<close>
  "zero_padded w n = map (\<lambda>i. digit_char (n div 10 ^ (w - 1 - i))) [0..<w]"

fun decimal_text :: "nat \<Rightarrow> string" where
  \<comment> \<open>a number in decimal, without padding\<close>
  "decimal_text n = (if n < 10 then [digit_char n] else decimal_text (n div 10) @ [digit_char n])"

declare decimal_text.simps [simp del]

definition strftime :: "datetime \<Rightarrow> string" where
  \<comment> \<open>\<open>dt.strftime("%m/%d/%Y:%H:%M:%S")\<close>.  CPython hands \<open>%Y\<close> to the C library, and
      glibc writes the year without padding: year 999 is \<open>999\<close>.  From year 1000 on the
      year has its four digits on every platform.\<close>
  "strftime dt =
     zero_padded 2 (month dt) @ ''/'' @ zero_padded 2 (day dt) @ ''/'' @
     decimal_text (year dt) @ '':'' @ zero_padded 2 (hour dt) @ '':'' @
     zero_padded 2 (minute dt) @ '':'' @ zero_padded 2 (second dt)"

definition spec_time_format :: "datetime \<Rightarrow> string" where
  \<comment> \<open>The specification's \<open>MM/DD/YYYY:HH:MM:SS\<close>: two, two and four digits, then three
      times two.\<close>
  "spec_time_format dt =
     zero_padded 2 (month dt) @ ''/'' @ zero_padded 2 (day dt) @ ''/'' @
     zero_padded 4 (year dt) @ '':'' @ zero_padded 2 (hour dt) @ '':'' @
     zero_padded 2 (minute dt) @ '':'' @ zero_padded 2 (second dt)"

section \<open>\<open>create_timedelta\<close>\<close>

definition create_timedelta :: "string \<Rightarrow> py_error + timedelta" where
  "create_timedelta timespec =
     (let duration = split CHR '':'' timespec;
          n = length duration
      in bind_err (py_int (duration ! (n - 1))) (\<lambda>seconds.
         bind_err (if 1 < n then py_int (duration ! (n - 2)) else Inr 0) (\<lambda>minutes.
         bind_err (if 2 < n then py_int (duration ! (n - 3)) else Inr 0) (\<lambda>hours.
         bind_err (if 3 < n then py_int (duration ! (n - 4)) else Inr 0) (\<lambda>days.
         new_timedelta days seconds minutes hours)))))"

definition spec_total_seconds :: "int list \<Rightarrow> int" where
  \<comment> \<open>The specification's reading of up to four components: right to left they are
      seconds, minutes, hours and days, and a missing leading component is zero.\<close>
  "spec_total_seconds vs =
     (let p = replicate (4 - length vs) 0 @ vs
      in p ! 0 * 86400 + p ! 1 * 3600 + p ! 2 * 60 + p ! 3)"

section \<open>Building the query text\<close>

definition re_sub_search :: "string \<Rightarrow> string \<Rightarrow> string" where
  \<comment> \<open>\<open>re.sub(r"^\s*search", repl, query, 1, re.I)\<close>: the pattern can only match at the
      start of the text, after all leading whitespace (the letter \<open>s\<close> is not whitespace, so
      no shorter run of \<open>\s*\<close> matches); \<open>repl\<close> holds no backslash.\<close>
  "re_sub_search repl query =
     (let rest = dropWhile isspace query
      in if lower (take 6 rest) = ''search'' then repl @ drop 6 rest else query)"

definition add_missing_search :: "string \<Rightarrow> string" where
  \<comment> \<open>the guard that opens \<open>query_with_time\<close>, \<open>query_with_index_time\<close> and
      \<open>execute_query\<close>: "searches need to start with search"\<close>
  "add_missing_search query =
     (if \<not> startswith (lower (lstrip query)) ''search'' then ''search '' @ query else query)"

definition spec_begins_with_search :: "string \<Rightarrow> bool" where
  \<comment> \<open>The specification's test: after the leading whitespace is discarded, the text
      begins with the six letters of \<open>search\<close>, each in either case.  It looks at those
      six characters only, so \<open>searchlight\<close> begins with \<open>search\<close> too.\<close>
  "spec_begins_with_search query =
     (let rest = dropWhile isspace query
      in 6 \<le> length rest
         \<and> list_all2 (\<lambda>c l. c = fst l \<or> c = snd l) (take 6 rest) (zip ''search'' ''SEARCH''))"

definition time_query :: "string \<Rightarrow> datetime option \<Rightarrow> datetime option \<Rightarrow> string" where
  \<comment> \<open>lines 174-189 of \<open>query_with_time\<close>: the text handed to \<open>self.query\<close>\<close>
  "time_query query time_start time_end =
     (let query = add_missing_search query;
          query = (case time_end of None \<Rightarrow> query
                   | Some e \<Rightarrow> re_sub_search (''search latest='' @ strftime e) query);
          query = (case time_start of None \<Rightarrow> query
                   | Some b \<Rightarrow> re_sub_search (''search earliest='' @ strftime b) query)
      in query)"

definition index_time_query :: "string \<Rightarrow> datetime option \<Rightarrow> datetime option \<Rightarrow> string" where
  \<comment> \<open>lines 198-213 of \<open>query_with_index_time\<close>\<close>
  "index_time_query query time_start time_end =
     (let query = add_missing_search query;
          query = (case time_end of None \<Rightarrow> query
                   | Some e \<Rightarrow> re_sub_search (''search _index_latest='' @ strftime e) query);
          query = (case time_start of None \<Rightarrow> query
                   | Some b \<Rightarrow> re_sub_search (''search _index_earliest='' @ strftime b) query)
      in query)"

definition occurs_at :: "string \<Rightarrow> nat \<Rightarrow> string \<Rightarrow> bool" where
  \<comment> \<open>\<open>p\<close> is the substring of \<open>s\<close> that starts at offset \<open>i\<close>\<close>
  "occurs_at p i s = (i + length p \<le> length s \<and> take (length p) (drop i s) = p)"

definition str_find :: "string \<Rightarrow> string \<Rightarrow> nat option" where
  \<comment> \<open>\<open>s.find(p)\<close>: the lowest offset at which \<open>p\<close> occurs, \<open>None\<close> for Python's \<open>-1\<close>\<close>
  "str_find s p = List.find (\<lambda>i. occurs_at p i s) [0..<Suc (length s)]"

section \<open>Decoded JSON and the objects built from it\<close>

text \<open>
  \<open>json.loads\<close> returns \<open>None\<close>, a \<open>bool\<close>, a number, a \<open>str\<close>, a \<open>list\<close> or a
  \<open>dict\<close> with \<open>str\<close> keys.  Splunk's \<open>json_rows\<close> output carries its values as strings, so
  numbers are modelled as integers only.  \<open>JNull\<close> is Python's \<open>None\<close>.
\<close>

datatype jvalue =
    JNull
  | JBool bool
  | JNumber int
  | JString string
  | JArray "jvalue list"
  | JObject "(string \<times> jvalue) list"

type_synonym pydict = "(jvalue \<times> jvalue) list"
  \<comment> \<open>a \<open>dict\<close> in insertion order\<close>

fun subscript_key :: "jvalue \<Rightarrow> string \<Rightarrow> py_error + jvalue" where
  \<comment> \<open>\<open>x[k]\<close> for a \<open>str\<close> \<open>k\<close>\<close>
  "subscript_key (JObject kvs) k = (case map_of kvs k of None \<Rightarrow> Inl KeyError | Some v \<Rightarrow> Inr v)"
| "subscript_key _ k = Inl TypeError"

fun subscript_index :: "jvalue \<Rightarrow> nat \<Rightarrow> py_error + jvalue" where
  \<comment> \<open>\<open>x[i]\<close> for an \<open>int\<close> \<open>i \<ge> 0\<close>\<close>
  "subscript_index (JArray xs) i = (if i < length xs then Inr (xs ! i) else Inl IndexError)"
| "subscript_index (JString s) i = (if i < length s then Inr (JString [s ! i]) else Inl IndexError)"
| "subscript_index (JObject kvs) i = Inl KeyError"
| "subscript_index _ i = Inl TypeError"

fun py_len :: "jvalue \<Rightarrow> py_error + nat" where
  "py_len (JArray xs) = Inr (length xs)"
| "py_len (JString s) = Inr (length s)"
| "py_len (JObject kvs) = Inr (length kvs)"
| "py_len _ = Inl TypeError"

fun py_iter :: "jvalue \<Rightarrow> py_error + jvalue list" where
  \<comment> \<open>the values a \<open>for\<close> loop over \<open>x\<close> visits\<close>
  "py_iter (JArray xs) = Inr xs"
| "py_iter (JString s) = Inr (map (\<lambda>c. JString [c]) s)"
| "py_iter (JObject kvs) = Inr (map (\<lambda>kv. JString (fst kv)) kvs)"
| "py_iter _ = Inl TypeError"

fun hashable :: "jvalue \<Rightarrow> bool" where
  "hashable (JArray xs) = False"
| "hashable (JObject kvs) = False"
| "hashable _ = True"

fun as_key :: "jvalue \<Rightarrow> jvalue" where
  \<comment> \<open>dictionary keys are compared with \<open>==\<close>, under which \<open>True\<close> is \<open>1\<close> and \<open>False\<close> is \<open>0\<close>\<close>
  "as_key (JBool b) = JNumber (if b then 1 else 0)"
| "as_key v = v"

fun dict_set :: "pydict \<Rightarrow> jvalue \<Rightarrow> jvalue \<Rightarrow> pydict" where
  "dict_set [] k v = [(k, v)]"
| "dict_set ((k', v') # d) k v =
     (if as_key k' = as_key k then (k', v) # d else (k', v') # dict_set d k v)"

definition setitem :: "pydict \<Rightarrow> jvalue \<Rightarrow> jvalue \<Rightarrow> py_error + pydict" where
  \<comment> \<open>\<open>obj[k] = v\<close>\<close>
  "setitem obj k v = (if hashable k then Inr (dict_set obj k v) else Inl TypeError)"

definition dict_get :: "pydict \<Rightarrow> jvalue \<Rightarrow> jvalue option" where
  \<comment> \<open>\<open>obj.get(k)\<close>, with \<open>None\<close> for a missing key\<close>
  "dict_get obj k = map_of (map (\<lambda>kv. (as_key (fst kv), snd kv)) obj) (as_key k)"

section \<open>\<open>SplunkQueryObject\<close>\<close>

type_synonym instant = int
  \<comment> \<open>a naive \<open>datetime\<close> as returned by \<open>datetime.datetime.now()\<close>, in microseconds since
      0001-01-01T00:00:00; the lifecycle only adds a duration to such a value and compares\<close>

record session =
  uri :: string
  username :: string
  password :: string
  max_result_count :: nat
  relative_duration_before :: string
  relative_duration_after :: string
  query_timeout :: string
  network_timeout :: nat
  namespace_user :: string
  namespace_app :: string
  session_key :: "string option"
  search_id :: "string option"
  search_results :: jvalue
  query_start_time :: "instant option"
  query_end_time :: "instant option"
  query_cancelled :: bool

definition cancel :: "session \<Rightarrow> session" where
  "cancel self = self\<lparr>query_cancelled := True\<rparr>"

subsection \<open>\<open>json\<close>\<close>

fun fill_obj :: "jvalue \<Rightarrow> jvalue \<Rightarrow> nat list \<Rightarrow> pydict \<Rightarrow> py_error + pydict" where
  \<comment> \<open>the inner loop, \<open>obj[names[index]] = row[index]\<close> with \<open>names\<close> for
      \<open>self.search_results["fields"]\<close>: the right-hand side is evaluated
      first\<close>
  "fill_obj names row [] obj = Inr obj"
| "fill_obj names row (index # rest) obj =
     bind_err (subscript_index row index) (\<lambda>v.
     bind_err (subscript_index names index) (\<lambda>k.
     bind_err (setitem obj k v) (\<lambda>obj'.
     fill_obj names row rest obj')))"

fun rows_loop :: "jvalue \<Rightarrow> jvalue list \<Rightarrow> pydict list \<Rightarrow> py_error + pydict list" where
  \<comment> \<open>the outer loop over the rows; \<open>result\<close> is the list built so far\<close>
  "rows_loop results [] result = Inr result"
| "rows_loop results (row # rest) result =
     bind_err (subscript_key results ''fields'') (\<lambda>names.
     bind_err (py_len names) (\<lambda>n.
     bind_err (fill_obj names row [0..<n] []) (\<lambda>obj.
     rows_loop results rest (result @ [obj]))))"

definition json :: "session \<Rightarrow> py_error + pydict list option" where
  "json self =
     (if search_results self = JNull then Inr None
      else bind_err (subscript_key (search_results self) ''rows'') (\<lambda>rows.
           bind_err (py_iter rows) (\<lambda>rs.
           bind_err (rows_loop (search_results self) rs []) (\<lambda>result.
           Inr (Some result)))))"

section \<open>The query lifecycle\<close>

text \<open>
  What the object cannot decide is an input of the model, the \<open>world\<close>: the reply to each
  HTTP request (\<open>Raised\<close> when \<open>requests\<close> raises), the value of each reading of
  \<open>datetime.datetime.now()\<close>, whether another thread has called \<open>cancel\<close> before a reading
  of \<open>self.query_cancelled\<close>, the two library parsers, and whether the interpreter runs
  \<open>assert\<close> statements (\<open>__debug__\<close>, which only the option \<open>-O\<close> turns off).  A \<open>run\<close> threads the object,
  the requests and messages it has issued, and how many readings it has made.  Messages
  logged at the levels \<open>error\<close> and \<open>warning\<close> are recorded by their format text, without
  its quotation marks; \<open>debug\<close> messages are not recorded.
\<close>

datatype http_reply = Raised | Response nat string
  \<comment> \<open>\<open>Response status_code text\<close>\<close>

datatype xml_find = Malformed | No_element | Element_text "string option"
  \<comment> \<open>\<open>ET.fromstring(text).find(tag).text\<close>: the text is not XML, the root has no such
      child, or the child's text (\<open>None\<close> for an empty element)\<close>

record world =
  debug :: bool
  login_reply :: http_reply
  search_reply :: "string \<Rightarrow> http_reply"
  status_reply :: "nat \<Rightarrow> http_reply"
  results_reply :: http_reply
  clock :: "nat \<Rightarrow> instant"
  cancel_called :: "nat \<Rightarrow> bool"
  xml_find_text :: "string \<Rightarrow> string \<Rightarrow> xml_find"
  json_loads :: "string \<Rightarrow> jvalue option"

datatype event =
    Post_login
  | Post_search string
  | Get_status
  | Get_results
  | Sleep
  | Log_error string
  | Log_warning string

record run =
  self :: session
  events :: "event list"
  clock_reads :: nat
  flag_reads :: nat
  polls :: nat

definition emit :: "event \<Rightarrow> run \<Rightarrow> run" where
  "emit e p = p\<lparr>events := events p @ [e]\<rparr>"

definition now :: "world \<Rightarrow> run \<Rightarrow> instant \<times> run" where
  \<comment> \<open>\<open>datetime.datetime.now()\<close>\<close>
  "now w p = (clock w (clock_reads p), p\<lparr>clock_reads := Suc (clock_reads p)\<rparr>)"

definition read_query_cancelled :: "world \<Rightarrow> run \<Rightarrow> bool \<times> run" where
  \<comment> \<open>a reading of \<open>self.query_cancelled\<close>; a \<open>cancel()\<close> of another thread lands first\<close>
  "read_query_cancelled w p =
     (let obj = (if cancel_called w (flag_reads p) then cancel (self p) else self p)
      in (query_cancelled obj, p\<lparr>self := obj, flag_reads := Suc (flag_reads p)\<rparr>))"

definition max_instant :: instant where
  \<comment> \<open>\<open>datetime.max\<close>, 9999-12-31T23:59:59.999999\<close>
  "max_instant = 3652059 * 86400000000 - 1"

definition datetime_add :: "instant \<Rightarrow> timedelta \<Rightarrow> py_error + instant" where
  \<comment> \<open>\<open>datetime + timedelta\<close>\<close>
  "datetime_add t td =
     (let r = t + (total_seconds td * 1000000 + microseconds td)
      in if r < 0 \<or> max_instant < r then Inl OverflowError else Inr r)"

definition authenticate :: "world \<Rightarrow> run \<Rightarrow> bool \<times> run" where
  "authenticate w p =
     (let p = emit Post_login p
      in case login_reply w of
           Raised \<Rightarrow> (False, emit (Log_error ''unable to authenticate to splunk: {0}'') p)
         | Response status_code text \<Rightarrow>
             if status_code \<noteq> 200
             then (False, emit (Log_error ''unable to log into slunk: response code {0} reason {1}'') p)
             else (case xml_find_text w text ''sessionKey'' of
                     Element_text key \<Rightarrow> (True, p\<lparr>self := (self p)\<lparr>session_key := key\<rparr>\<rparr>)
                   | _ \<Rightarrow> (False, emit (Log_error ''unable to authenticate to splunk: {0}'') p)))"

definition execute_query :: "world \<Rightarrow> string \<Rightarrow> run \<Rightarrow> bool \<times> run" where
  "execute_query w query p =
     (let query = add_missing_search query;
          p = emit (Post_search query) p
      in case search_reply w query of
           Raised \<Rightarrow> (False, emit (Log_error ''attempt to perform splunk query failed: {0}'') p)
         | Response status_code text \<Rightarrow>
             if status_code \<noteq> 201
             then (False, emit (Log_error ''splunk search failed: response code {0} reason {1}'') p)
             else (case xml_find_text w text ''sid'' of
                     Element_text sid \<Rightarrow> (True, p\<lparr>self := (self p)\<lparr>search_id := sid\<rparr>\<rparr>)
                   | _ \<Rightarrow> (False, emit (Log_error ''attempt to perform splunk query failed: {0}'') p)))"

definition isDone_key :: string where
  "isDone_key = ''<s:key name='' @ [CHR 0x22] @ ''isDone'' @ [CHR 0x22] @ ''>''"

definition isDone_match :: "string \<Rightarrow> char option" where
  \<comment> \<open>the pattern \<open><s:key name="isDone">([01])</s:key>\<close> at the start of \<open>s\<close>: group 1\<close>
  "isDone_match s =
     (let n = length isDone_key
      in if take n s = isDone_key
         then (case drop n s of
                 [] \<Rightarrow> None
               | d # r \<Rightarrow> if (d = CHR ''0'' \<or> d = CHR ''1'') \<and> take 8 r = ''</s:key>''
                          then Some d else None)
         else None)"

fun isDone_search :: "string \<Rightarrow> char option" where
  \<comment> \<open>\<open>re.search\<close> of that pattern: the leftmost match\<close>
  "isDone_search [] = None"
| "isDone_search (c # cs) =
     (case isDone_match (c # cs) of Some d \<Rightarrow> Some d | None \<Rightarrow> isDone_search cs)"

definition is_job_completed :: "world \<Rightarrow> run \<Rightarrow> bool option \<times> run" where
  \<comment> \<open>\<open>None\<close>, \<open>Some False\<close> and \<open>Some True\<close> are the method's \<open>None\<close>, \<open>False\<close> and
      \<open>True\<close>.  The message of the last branch subtracts \<open>self.query_start_time\<close> from
      \<open>now()\<close>, a \<open>TypeError\<close> (caught by the handler) when no start time is set.\<close>
  "is_job_completed w p =
     (let k = polls p;
          p = emit Get_status (p\<lparr>polls := Suc k\<rparr>)
      in case status_reply w k of
           Raised \<Rightarrow>
             (None, emit (Log_error ''unable to query status of search job {0}: {1}'') p)
         | Response status_code text \<Rightarrow>
             if status_code \<noteq> 200
             then (None, emit (Log_error
                     ''unable to get status of search job {0}: response code {1} reason {2}'') p)
             else (case isDone_search text of
                     None \<Rightarrow>
                       (Some False, emit (Log_error
                          ''could not parse response for isDone value for search job {0}'') p)
                   | Some d \<Rightarrow>
                       if d = CHR ''1'' then (Some True, p)
                       else (case query_start_time (self p) of
                               None \<Rightarrow>
                                 (None, emit (Log_error
                                    ''unable to query status of search job {0}: {1}'') (snd (now w p)))
                             | Some started \<Rightarrow> (Some False, snd (now w p)))))"

definition download_search_results :: "world \<Rightarrow> run \<Rightarrow> bool option \<times> run" where
  \<comment> \<open>the outer handler logs at level \<open>debug\<close> and returns nothing (\<open>None\<close>); the payload
      is stored before its \<open>rows\<close> are counted for the \<open>debug\<close> message\<close>
  "download_search_results w p =
     (let p = emit Get_results p
      in case results_reply w of
           Raised \<Rightarrow> (None, p)
         | Response status_code text \<Rightarrow>
             if status_code \<noteq> 200
             then (Some False, emit (Log_error
                     ''unable to download results for search job {0}: response code {1} reason {2}'') p)
             else (case json_loads w text of
                     None \<Rightarrow>
                       (Some False, emit (Log_error
                          ''unable to parse the json returned by splunk for search {0}: {1}'') p)
                   | Some payload \<Rightarrow>
                       (let p = p\<lparr>self := (self p)\<lparr>search_results := payload\<rparr>\<rparr>
                        in case bind_err (subscript_key payload ''rows'') py_len of
                             Inl e \<Rightarrow>
                               (Some False, emit (Log_error
                                  ''unable to parse the json returned by splunk for search {0}: {1}'') p)
                           | Inr n \<Rightarrow> (Some True, p))))"

datatype loop_exit = Returned bool | Left_loop
  \<comment> \<open>how the \<open>while\<close> loop of \<open>query\<close> ends: a \<open>return\<close> inside it, or its condition
      failing or its \<open>break\<close>\<close>

partial_function (option) poll :: "world \<Rightarrow> instant \<Rightarrow> run \<Rightarrow> (loop_exit \<times> run) option" where
  "poll w timeout_date p =
     (if fst (read_query_cancelled w p) then Some (Left_loop, snd (read_query_cancelled w p))
      else (case is_job_completed w (snd (read_query_cancelled w p)) of
              (None, p1) \<Rightarrow> Some (Returned False, p1)
            | (Some job_completed, p1) \<Rightarrow>
                if job_completed
                then Some (Left_loop, (snd (now w p1))\<lparr>self :=
                       (self (snd (now w p1)))\<lparr>query_end_time := Some (fst (now w p1))\<rparr>\<rparr>)
                else if timeout_date < fst (now w p1)
                then Some (Returned False,
                       emit (Log_error ''splunk query {0} timed out'') (snd (now w p1)))
                else poll w timeout_date (emit Sleep (snd (now w p1)))))"

declare poll.simps [code]

definition query :: "world \<Rightarrow> string \<Rightarrow> run \<Rightarrow> ((py_error + bool) \<times> run) option" where
  \<comment> \<open>\<open>Inl e\<close>: the call raises \<open>e\<close>; \<open>Inr b\<close>: it returns \<open>b\<close>; \<open>None\<close>: it never returns\<close>
  "query w q p =
     (let (t0, p) = now w p
      in case bind_err (create_timedelta (query_timeout (self p))) (datetime_add t0) of
           Inl e \<Rightarrow> Some (Inl e, p)
         | Inr timeout_date \<Rightarrow>
             (let (ok, p) = authenticate w p
              in if \<not> ok then Some (Inr False, p)
                 else (let (ok, p) = execute_query w q p
                       in if \<not> ok then Some (Inr False, p)
                          else (let (t1, p) = now w p;
                                    p = p\<lparr>self := (self p)\<lparr>query_start_time := Some t1\<rparr>\<rparr>
                                in case poll w timeout_date p of
                                     None \<Rightarrow> None
                                   | Some (Returned b, p) \<Rightarrow> Some (Inr b, p)
                                   | Some (Left_loop, p) \<Rightarrow>
                                       (let (cancelled, p) = read_query_cancelled w p
                                        in if \<not> cancelled
                                           then Some (Inr True, snd (download_search_results w p))
                                           else Some (Inr True, p))))))"

definition query_with_time ::
  "world \<Rightarrow> string \<Rightarrow> datetime option \<Rightarrow> datetime option \<Rightarrow> run \<Rightarrow> ((py_error + bool) \<times> run) option"
where
  \<comment> \<open>\<open>None\<close> is Python's \<open>None\<close>, which \<open>assert isinstance(_, datetime.datetime)\<close> rejects\<close>
  "query_with_time w q time_start time_end p =
     (if debug w \<and> time_start = None then Some (Inl AssertionError, p)
      else if debug w \<and> time_end = None then Some (Inl AssertionError, p)
      else query w (time_query q time_start time_end) p)"

definition query_with_index_time ::
  "world \<Rightarrow> string \<Rightarrow> datetime option \<Rightarrow> datetime option \<Rightarrow> run \<Rightarrow> ((py_error + bool) \<times> run) option"
where
  "query_with_index_time w q time_start time_end p =
     (if debug w \<and> time_start = None then Some (Inl AssertionError, p)
      else if debug w \<and> time_end = None then Some (Inl AssertionError, p)
      else query w (index_time_query q time_start time_end) p)"

subsection \<open>Reaching the polling loop\<close>

text \<open>
  Two abbreviations for the statements below: \<open>reaches_polling\<close> says that the deadline
  is computed, to \<open>timeout_date\<close>, and that authentication and submission succeed;
  \<open>polling_start\<close> is the run at that point, when the loop is entered.
\<close>

definition reaches_polling :: "world \<Rightarrow> string \<Rightarrow> run \<Rightarrow> instant \<Rightarrow> bool" where
  "reaches_polling w q p timeout_date =
     (bind_err (create_timedelta (query_timeout (self p))) (datetime_add (clock w (clock_reads p)))
        = Inr timeout_date
      \<and> fst (authenticate w (snd (now w p)))
      \<and> fst (execute_query w q (snd (authenticate w (snd (now w p))))))"

definition polling_start :: "world \<Rightarrow> string \<Rightarrow> run \<Rightarrow> run" where
  "polling_start w q p =
     (let p3 = snd (execute_query w q (snd (authenticate w (snd (now w p)))))
      in (snd (now w p3))\<lparr>self := (self (snd (now w p3)))\<lparr>query_start_time := Some (fst (now w p3))\<rparr>\<rparr>)"

section \<open>\<open>extract_event_timestamp\<close>\<close>

text \<open>
  The helper is glue around three libraries: \<open>zoneinfo\<close>, \<open>dateutil\<close> and
  \<open>ace_hunter.util.local_time\<close> (with \<open>ace_hunter.config.LOCAL_TIMEZONE\<close>), none of which
  is part of the module.  They are the fields of \<open>libs\<close>.  An aware \<open>datetime\<close> is the
  instant it denotes, counted like a naive one but in UTC, together with its zone, so that
  \<open>astimezone\<close> changes the zone and keeps the instant; \<open>localize\<close> is the instant a zone
  gives to a wall-clock reading, which is what \<open>replace(tzinfo=zone)\<close> denotes, and
  \<open>utcoffset\<close> is what a zone adds to UTC at an instant, in microseconds.
\<close>

datatype tzinfo = Tzinfo string

datatype py_datetime = Naive datetime | Aware instant tzinfo

datatype parsed = Parsed_datetime py_datetime | Parsed_other
  \<comment> \<open>the result of \<open>dateutil.parser.parse\<close>: an instance of \<open>datetime.datetime\<close> or not\<close>

record libs =
  ZoneInfo :: "string \<Rightarrow> py_error + tzinfo"
  LOCAL_TIMEZONE :: tzinfo
  parse :: "string \<Rightarrow> py_error + parsed"
  local_time :: py_datetime
  localize :: "tzinfo \<Rightarrow> datetime \<Rightarrow> instant"
  utcoffset :: "tzinfo \<Rightarrow> instant \<Rightarrow> int"

definition refused_key :: "string \<Rightarrow> bool" where
  \<comment> \<open>the keys that \<open>ZoneInfo\<close> refuses with \<open>ValueError\<close> before it looks for a file:
      the empty key, an absolute path, a path that is not normalised, and a path that
      leaves the database; these are the keys with an empty component or a component
      \<open>.\<close> or \<open>..\<close>\<close>
  "refused_key key = list_ex (\<lambda>c. c = [] \<or> c = ''.'' \<or> c = ''..'') (split CHR ''/'' key)"

definition replace_tzinfo :: "libs \<Rightarrow> py_datetime \<Rightarrow> tzinfo \<Rightarrow> py_datetime" where
  \<comment> \<open>\<open>dt.replace(tzinfo=zone)\<close> on a naive \<open>dt\<close>\<close>
  "replace_tzinfo lib dt zone =
     (case dt of Naive wall \<Rightarrow> Aware (localize lib zone wall) zone | Aware i z \<Rightarrow> Aware i zone)"

definition astimezone :: "libs \<Rightarrow> instant \<Rightarrow> tzinfo \<Rightarrow> tzinfo \<Rightarrow> py_error + py_datetime" where
  \<comment> \<open>\<open>dt.astimezone(zone)\<close> on the aware \<open>dt\<close> of instant \<open>i\<close> and zone \<open>z\<close>: \<open>dt\<close> itself
      when \<open>zone\<close> is its zone; otherwise \<open>dt\<close> is taken to UTC and from there to \<open>zone\<close>,
      and a wall-clock reading outside the years 1 to 9999 on the way raises\<close>
  "astimezone lib i z zone =
     (if zone = z then Inr (Aware i z)
      else if i < 0 \<or> max_instant < i then Inl OverflowError
      else if i + utcoffset lib zone i < 0 \<or> max_instant < i + utcoffset lib zone i
      then Inl OverflowError
      else Inr (Aware i zone))"

definition legacy_template :: string where
  \<comment> \<open>\<open>d\<close> stands for \<open>[0-9]\<close> and \<open>s\<close> for \<open>[-+]\<close>\<close>
  "legacy_template = ''dddd-dd-ddTdd:dd:dd.dddsdd:dd''"

definition template_char :: "char \<Rightarrow> char \<Rightarrow> bool" where
  "template_char t c =
     (if t = CHR ''d'' then isdigit c
      else if t = CHR ''s'' then c = CHR ''-'' \<or> c = CHR ''+''
      else c = t)"

definition legacy_match :: "string \<Rightarrow> (string \<times> string \<times> string \<times> string \<times> string \<times> string) option" where
  \<comment> \<open>\<open>re.match\<close> of the legacy pattern, groups 1 to 6; \<open>$\<close> also matches before a final
      newline\<close>
  "legacy_match s =
     (if (length s = 29 \<or> (length s = 30 \<and> s ! 29 = CHR 0x0A))
         \<and> list_all2 template_char legacy_template (take 29 s)
      then Some (take 4 s, take 2 (drop 5 s), take 2 (drop 8 s),
                 take 2 (drop 11 s), take 2 (drop 14 s), take 2 (drop 17 s))
      else None)"

definition days_in_month :: "nat \<Rightarrow> nat \<Rightarrow> nat" where
  "days_in_month y m =
     (if m = 2 then (if y mod 4 = 0 \<and> (y mod 100 \<noteq> 0 \<or> y mod 400 = 0) then 29 else 28)
      else if m = 4 \<or> m = 6 \<or> m = 9 \<or> m = 11 then 30 else 31)"

definition strptime :: "string \<times> string \<times> string \<times> string \<times> string \<times> string \<Rightarrow> py_error + datetime" where
  \<comment> \<open>\<open>datetime.datetime.strptime("{0}-{1}-{2} {3}:{4}:{5}".format(...), "%Y-%m-%d %H:%M:%S")\<close>
      on six groups of digits\<close>
  "strptime g =
     (case g of (y, m, d, H, M, S) \<Rightarrow>
        (let yy = nat (decimal y); mm = nat (decimal m); dd = nat (decimal d);
             hh = nat (decimal H); mi = nat (decimal M); ss = nat (decimal S)
         in if 1 \<le> yy \<and> 1 \<le> mm \<and> mm \<le> 12 \<and> 1 \<le> dd \<and> dd \<le> days_in_month yy mm
               \<and> hh \<le> 23 \<and> mi \<le> 59 \<and> ss \<le> 59
            then Inr \<lparr>year = yy, month = mm, day = dd, hour = hh, minute = mi, second = ss,
                      microsecond = 0\<rparr>
            else Inl ValueError))"

definition resolve_timezone :: "libs \<Rightarrow> string option \<Rightarrow> event list \<times> (py_error + tzinfo)" where
  \<comment> \<open>lines 50-54: only \<open>ZoneInfoNotFoundError\<close> is handled\<close>
  "resolve_timezone lib timezone =
     (case timezone of
        None \<Rightarrow> ([], Inr (LOCAL_TIMEZONE lib))
      | Some key \<Rightarrow>
          (case ZoneInfo lib key of
             Inr zone \<Rightarrow> ([], Inr zone)
           | Inl e \<Rightarrow>
               if e = ZoneInfoNotFoundError
               then ([Log_error ''{timezone} is an unknown time zone.''], Inr (LOCAL_TIMEZONE lib))
               else ([], Inl e)))"

definition extract_event_timestamp ::
  "libs \<Rightarrow> string \<Rightarrow> pydict \<Rightarrow> string option \<Rightarrow> event list \<times> (py_error + py_datetime)"
where
  \<comment> \<open>the messages logged, and the value returned or the exception raised\<close>
  "extract_event_timestamp lib obj event timezone =
     (case dict_get event (JString ''_time'') of
        None \<Rightarrow> ([Log_warning ''splunk event missing _time field for {obj}''], Inr (local_time lib))
      | Some time_field \<Rightarrow>
          (case resolve_timezone lib timezone of
             (logged, Inl e) \<Rightarrow> (logged, Inl e)
           | (logged, Inr zone) \<Rightarrow>
               (case time_field of
                  JString text \<Rightarrow>
                    (case parse lib text of
                       Inl e \<Rightarrow> (logged, Inl e)
                     | Inr (Parsed_datetime event_time) \<Rightarrow>
                         (case event_time of
                            Naive wall \<Rightarrow> (logged, Inr (replace_tzinfo lib event_time zone))
                          | Aware i z \<Rightarrow> (logged, astimezone lib i z zone))
                     | Inr Parsed_other \<Rightarrow>
                         (case legacy_match text of
                            None \<Rightarrow>
                              (logged @ [Log_error
                                 ''_time field does not match expected format: {event[_time]} for {obj}''],
                               Inr (local_time lib))
                          | Some groups \<Rightarrow>
                              (case strptime groups of
                                 Inl e \<Rightarrow> (logged, Inl e)
                               | Inr wall \<Rightarrow> (logged, Inr (replace_tzinfo lib (Naive wall) zone)))))
                | _ \<Rightarrow> (logged, Inl TypeError))))"

section \<open>Example inputs\<close>

definition example_start :: datetime where
  "example_start = \<lparr>year = 2024, month = 1, day = 1, hour = 0, minute = 0, second = 0,
     microsecond = 0\<rparr>"

definition example_end :: datetime where
  "example_end = \<lparr>year = 2024, month = 1, day = 1, hour = 0, minute = 0, second = 10,
     microsecond = 0\<rparr>"

definition example_session :: session where
  \<comment> \<open>a new \<open>SplunkQueryObject\<close> with the default arguments of \<open>__init__\<close>\<close>
  "example_session =
     \<lparr>uri = ''https://splunk.example:8089'', username = ''hunter'', password = ''secret'',
      max_result_count = 1000, relative_duration_before = ''00:00:15'',
      relative_duration_after = ''00:00:05'', query_timeout = ''00:30:00'', network_timeout = 30,
      namespace_user = ''-'', namespace_app = ''-'', session_key = None, search_id = None,
      search_results = JNull, query_start_time = None, query_end_time = None,
      query_cancelled = False\<rparr>"

definition example_run :: run where
  "example_run = \<lparr>self = example_session, events = [], clock_reads = 0, flag_reads = 0, polls = 0\<rparr>"

definition status_body :: "char \<Rightarrow> string" where
  "status_body d = ''<entry>'' @ isDone_key @ [d] @ ''</s:key></entry>''"

definition example_payload :: jvalue where
  "example_payload =
     JObject [(''fields'', JArray [JString ''a'', JString ''b'']),
              (''rows'', JArray [JArray [JString ''1'', JString ''x''],
                                 JArray [JString ''2'', JString ''y'']])]"

definition repeated_field_payload :: jvalue where
  "repeated_field_payload =
     JObject [(''fields'', JArray [JString ''a'', JString ''a'']),
              (''rows'', JArray [JArray [JString ''1'', JString ''2'']])]"

definition example_world :: world where
  \<comment> \<open>assertions are on, every request succeeds, the job is done at the third status
      request, the clock advances one second from one reading to the next, and nobody
      cancels\<close>
  "example_world =
     \<lparr>debug = True,
      login_reply = Response 200 ''<response><sessionKey>k</sessionKey></response>'',
      search_reply = (\<lambda>q. Response 201 ''<response><sid>1</sid></response>''),
      status_reply = (\<lambda>k. Response 200 (status_body (if k < 2 then CHR ''0'' else CHR ''1''))),
      results_reply = Response 200 ''{...}'',
      clock = (\<lambda>n. 63839664000000000 + int n * 1000000),
      cancel_called = (\<lambda>n. False),
      xml_find_text = (\<lambda>text tag. Element_text (Some (if tag = ''sid'' then ''1'' else ''k''))),
      json_loads = (\<lambda>text. Some example_payload)\<rparr>"

definition never_done_world :: world where
  "never_done_world = example_world\<lparr>status_reply := (\<lambda>k. Response 200 (status_body CHR ''0''))\<rparr>"

definition status_failure_world :: world where
  "status_failure_world = example_world\<lparr>status_reply :=
     (\<lambda>k. if k < 2 then Response 200 (status_body CHR ''0'') else Response 503 ''Service Unavailable'')\<rparr>"

definition unparsed_status_world :: world where
  "unparsed_status_world = example_world\<lparr>status_reply :=
     (\<lambda>k. if k < 1 then Response 200 ''<entry/>'' else Response 200 (status_body CHR ''1''))\<rparr>"

definition cancelling_world :: world where
  "cancelling_world = never_done_world\<lparr>cancel_called := (\<lambda>n. 1 \<le> n)\<rparr>"

definition failed_download_world :: world where
  "failed_download_world = example_world\<lparr>results_reply := Response 500 ''Internal Server Error''\<rparr>"

definition bad_json_world :: world where
  "bad_json_world = example_world\<lparr>json_loads := (\<lambda>text. None)\<rparr>"

definition example_deadline :: instant where
  "example_deadline = 63839665800000000"

definition short_timeout_run :: run where
  \<comment> \<open>a new object whose \<open>query_timeout\<close> is three seconds\<close>
  "short_timeout_run = example_run\<lparr>self := example_session\<lparr>query_timeout := ''00:00:03''\<rparr>\<rparr>"

definition short_deadline :: instant where
  \<comment> \<open>three seconds after the first clock reading of the example world\<close>
  "short_deadline = 63839664003000000"

definition example_time_text :: string where
  "example_time_text = ''2024-01-01T10:00:00.000+00:00''"

definition ten_oclock :: datetime where
  "ten_oclock = \<lparr>year = 2024, month = 1, day = 1, hour = 10, minute = 0, second = 0,
     microsecond = 0\<rparr>"

definition ten_oclock_utc :: instant where
  \<comment> \<open>2024-01-01T10:00:00 UTC: 738885 days and ten hours after 0001-01-01T00:00:00\<close>
  "ten_oclock_utc = (738885 * 86400 + 10 * 3600) * 1000000"

definition example_libs :: libs where
  \<comment> \<open>a zone database that holds the one zone \<open>UTC\<close>, whose offset is zero; a local
      zone five hours behind UTC; and a parser that accepts the example text, as an aware
      value with \<open>dateutil\<close>'s own UTC zone, and rejects every other text\<close>
  "example_libs =
     \<lparr>ZoneInfo = (\<lambda>key. if refused_key key then Inl ValueError
                       else if key = ''UTC'' then Inr (Tzinfo ''UTC'')
                       else Inl ZoneInfoNotFoundError),
      LOCAL_TIMEZONE = Tzinfo ''America/New_York'',
      parse = (\<lambda>s. if s = example_time_text
                     then Inr (Parsed_datetime (Aware ten_oclock_utc (Tzinfo ''tzutc'')))
                     else Inl ParserError),
      local_time = Aware (ten_oclock_utc + 1) (Tzinfo ''America/New_York''),
      localize = (\<lambda>zone wall. if zone = Tzinfo ''UTC'' \<and> wall = ten_oclock then ten_oclock_utc else 0),
      utcoffset = (\<lambda>zone i. if zone = Tzinfo ''America/New_York'' then - 18000000000 else 0)\<rparr>"

section \<open>Auxiliary facts\<close>

lemma split_nonempty: "split sep s \<noteq> []"
  by (induction s) auto

lemma short_list_cases:
  assumes "xs \<noteq> []" "length xs \<le> 4"
  obtains a where "xs = [a]" | a b where "xs = [a, b]" | a b c where "xs = [a, b, c]"
    | a b c d where "xs = [a, b, c, d]"
proof -
  from assms(1) have "0 < length xs" by simp
  with assms(2) have "length xs = 1 \<or> length xs = 2 \<or> length xs = 3 \<or> length xs = 4"
    by arith
  then show thesis
    using that by (auto simp: length_Suc_conv numeral_eq_Suc)
qed

lemma spec_total_seconds_simps:
  "spec_total_seconds [s] = s"
  "spec_total_seconds [m, s] = m * 60 + s"
  "spec_total_seconds [h, m, s] = h * 3600 + m * 60 + s"
  "spec_total_seconds [d, h, m, s] = d * 86400 + h * 3600 + m * 60 + s"
  by (simp_all add: spec_total_seconds_def eval_nat_numeral)

lemma new_timedelta_total:
  assumes "t = d * 86400 + s + m * 60 + h * 3600"
    and "- 999999999 \<le> t div 86400" and "t div 86400 \<le> 999999999"
  shows "\<exists>td. new_timedelta d s m h = Inr td \<and> total_seconds td = t"
  using assms(2,3) unfolding assms(1)
  by (simp add: new_timedelta_def total_seconds_def Let_def)

lemma new_timedelta_overflow:
  assumes "t = d * 86400 + s + m * 60 + h * 3600"
    and "t div 86400 < - 999999999 \<or> 999999999 < t div 86400"
  shows "new_timedelta d s m h = Inl OverflowError"
  using assms(2) unfolding assms(1)
  by (simp add: new_timedelta_def Let_def)

lemma create_timedelta_components:
  assumes "split CHR '':'' timespec = cs" and "length cs \<le> 4" and "map py_int cs = map Inr vs"
  shows "\<exists>d h m s. create_timedelta timespec = new_timedelta d s m h
           \<and> spec_total_seconds vs = d * 86400 + s + m * 60 + h * 3600"
proof -
  have ne: "cs \<noteq> []" using assms(1) split_nonempty by metis
  from ne assms(2) show ?thesis
  proof (cases cs rule: short_list_cases)
    case (1 a)
    with assms(3) obtain s where vs: "vs = [s]" and "py_int a = Inr s" by (cases vs) auto
    with 1 assms(1) have "create_timedelta timespec = new_timedelta 0 s 0 0
        \<and> spec_total_seconds vs = 0 * 86400 + s + 0 * 60 + 0 * 3600"
      by (simp add: create_timedelta_def bind_err_def spec_total_seconds_simps)
    then show ?thesis by blast
  next
    case (2 a b)
    with assms(3) obtain m s where vs: "vs = [m, s]" and "py_int a = Inr m" "py_int b = Inr s"
      by (cases vs; cases "tl vs") auto
    with 2 assms(1) have "create_timedelta timespec = new_timedelta 0 s m 0
        \<and> spec_total_seconds vs = 0 * 86400 + s + m * 60 + 0 * 3600"
      by (simp add: create_timedelta_def bind_err_def spec_total_seconds_simps)
    then show ?thesis by blast
  next
    case (3 a b c)
    with assms(3) obtain h m s where vs: "vs = [h, m, s]"
      and "py_int a = Inr h" "py_int b = Inr m" "py_int c = Inr s"
      by (cases vs; cases "tl vs"; cases "tl (tl vs)") auto
    with 3 assms(1) have "create_timedelta timespec = new_timedelta 0 s m h
        \<and> spec_total_seconds vs = 0 * 86400 + s + m * 60 + h * 3600"
      by (simp add: create_timedelta_def bind_err_def spec_total_seconds_simps)
    then show ?thesis by blast
  next
    case (4 a b c e)
    with assms(3) obtain d h m s where vs: "vs = [d, h, m, s]"
      and "py_int a = Inr d" "py_int b = Inr h" "py_int c = Inr m" "py_int e = Inr s"
      by (cases vs; cases "tl vs"; cases "tl (tl vs)"; cases "tl (tl (tl vs))") auto
    with 4 assms(1) have "create_timedelta timespec = new_timedelta d s m h
        \<and> spec_total_seconds vs = d * 86400 + s + m * 60 + h * 3600"
      by (simp add: create_timedelta_def bind_err_def spec_total_seconds_simps)
    then show ?thesis by blast
  qed
qed

lemma create_timedelta_microseconds:
  assumes "create_timedelta timespec = Inr td"
  shows "microseconds td = 0"
  using assms
  by (auto simp: create_timedelta_def bind_err_def new_timedelta_def Let_def
      split: sum.splits if_splits)

lemma length_zero_padded [simp]: "length (zero_padded w n) = w"
  by (simp add: zero_padded_def)

lemma length_spec_time_format: "length (spec_time_format dt) = 19"
  by (simp add: spec_time_format_def)

lemma decimal_text_small: "n < 10 \<Longrightarrow> decimal_text n = [digit_char n]"
  by (subst decimal_text.simps) simp

lemma decimal_text_large:
  "10 \<le> n \<Longrightarrow> decimal_text n = decimal_text (n div 10) @ [digit_char n]"
  by (subst decimal_text.simps) simp

lemma decimal_text_four_digits:
  assumes "1000 \<le> y" and "y \<le> 9999"
  shows "decimal_text y = zero_padded 4 y"
proof -
  have d: "y div 10 div 10 = y div 100" "y div 100 div 10 = y div 1000"
    by (simp_all add: div_mult2_eq [symmetric])
  have 1: "decimal_text y = decimal_text (y div 10) @ [digit_char y]"
    using assms by (intro decimal_text_large) simp
  have 2: "decimal_text (y div 10) = decimal_text (y div 100) @ [digit_char (y div 10)]"
    using assms decimal_text_large [of "y div 10"] d by simp
  have 3: "decimal_text (y div 100) = decimal_text (y div 1000) @ [digit_char (y div 100)]"
    using assms decimal_text_large [of "y div 100"] d by simp
  have 4: "decimal_text (y div 1000) = [digit_char (y div 1000)]"
    using assms by (intro decimal_text_small) simp
  show ?thesis
    unfolding 1 2 3 4 by (simp add: zero_padded_def upt_rec)
qed

lemma strftime_four_digits:
  assumes "1000 \<le> year dt" and "year dt \<le> 9999"
  shows "strftime dt = spec_time_format dt"
  by (simp add: strftime_def spec_time_format_def decimal_text_four_digits [OF assms])

lemma strftime_example_start: "strftime example_start = ''01/01/2024:00:00:00''"
proof -
  have "strftime example_start = spec_time_format example_start"
    by (rule strftime_four_digits) (simp_all add: example_start_def)
  then show ?thesis
    by (simp add: spec_time_format_def zero_padded_def digit_char_def example_start_def upt_rec)
qed

lemma strftime_example_end: "strftime example_end = ''01/01/2024:00:00:10''"
proof -
  have "strftime example_end = spec_time_format example_end"
    by (rule strftime_four_digits) (simp_all add: example_end_def)
  then show ?thesis
    by (simp add: spec_time_format_def zero_padded_def digit_char_def example_end_def upt_rec)
qed

lemma lstrip_search: "lstrip (''search'' @ x) = ''search'' @ x"
  by (simp add: lstrip_def isspace_def)

lemma startswith_search: "startswith s ''search'' = (take 6 s = ''search'')"
  by (simp add: startswith_def eval_nat_numeral)

lemma startswith_search_prefixed: "startswith (lower (lstrip (''search'' @ x))) ''search''"
  unfolding startswith_search lstrip_search by (simp add: lower_def lower_char_def)

lemma add_missing_search_starts: "startswith (lower (lstrip (add_missing_search q))) ''search''"
  using startswith_search_prefixed [of "CHR '' '' # q"]
  by (simp add: add_missing_search_def)

lemma add_missing_search_example:
  "drop 6 (lstrip (add_missing_search ''index=main'')) = '' index=main''"
  by (simp add: add_missing_search_def startswith_search lstrip_def lower_def lower_char_def
      isspace_def)

lemma re_sub_search_fires:
  assumes "startswith (lower (lstrip q)) ''search''"
  shows "re_sub_search repl q = repl @ drop 6 (lstrip q)"
  using assms
  by (simp add: re_sub_search_def startswith_search lstrip_def lower_def take_map Let_def)

lemma re_sub_search_keeps:
  assumes "startswith (lower (lstrip q)) ''search''"
  shows "startswith (lower (lstrip (re_sub_search (''search'' @ x) q))) ''search''"
  unfolding re_sub_search_fires [OF assms] append_assoc by (rule startswith_search_prefixed)

lemma time_query_starts: "startswith (lower (lstrip (time_query q b e))) ''search''"
proof -
  let ?q0 = "add_missing_search q"
  let ?q1 = "case e of None \<Rightarrow> ?q0 | Some t \<Rightarrow> re_sub_search (''search latest='' @ strftime t) ?q0"
  have 1: "startswith (lower (lstrip ?q1)) ''search''"
    using add_missing_search_starts [of q]
      re_sub_search_keeps [OF add_missing_search_starts, of "'' latest='' @ strftime t" q for t]
    by (cases e) simp_all
  show ?thesis
    unfolding time_query_def Let_def
    using 1 re_sub_search_keeps [OF 1, of "'' earliest='' @ strftime t" for t]
    by (cases b) simp_all
qed

lemma index_time_query_starts: "startswith (lower (lstrip (index_time_query q b e))) ''search''"
proof -
  let ?q0 = "add_missing_search q"
  let ?q1 = "case e of None \<Rightarrow> ?q0
             | Some t \<Rightarrow> re_sub_search (''search _index_latest='' @ strftime t) ?q0"
  have 1: "startswith (lower (lstrip ?q1)) ''search''"
    using add_missing_search_starts [of q]
      re_sub_search_keeps [OF add_missing_search_starts, of "'' _index_latest='' @ strftime t" q for t]
    by (cases e) simp_all
  show ?thesis
    unfolding index_time_query_def Let_def
    using 1 re_sub_search_keeps [OF 1, of "'' _index_earliest='' @ strftime t" for t]
    by (cases b) simp_all
qed

lemma add_missing_search_fixed:
  "startswith (lower (lstrip q)) ''search'' \<Longrightarrow> add_missing_search q = q"
  by (simp add: add_missing_search_def)

lemma time_query_both:
  "time_query q (Some b) (Some e) =
     ''search earliest='' @ strftime b @ '' latest='' @ strftime e
       @ drop 6 (lstrip (add_missing_search q))"
proof -
  let ?q0 = "add_missing_search q"
  let ?q1 = "(''search latest='' @ strftime e) @ drop 6 (lstrip ?q0)"
  have 1: "re_sub_search (''search latest='' @ strftime e) ?q0 = ?q1"
    by (rule re_sub_search_fires [OF add_missing_search_starts])
  have "startswith (lower (lstrip ?q1)) ''search''"
    using startswith_search_prefixed [of "'' latest='' @ strftime e @ drop 6 (lstrip ?q0)"]
    by simp
  then have 2: "re_sub_search (''search earliest='' @ strftime b) ?q1 =
      (''search earliest='' @ strftime b) @ drop 6 (lstrip ?q1)"
    by (rule re_sub_search_fires)
  have 3: "drop 6 (lstrip ?q1) = '' latest='' @ strftime e @ drop 6 (lstrip ?q0)"
    using lstrip_search [of "'' latest='' @ strftime e @ drop 6 (lstrip ?q0)"] by simp
  show ?thesis
    unfolding time_query_def Let_def option.case 1 2 3 by simp
qed

lemma index_time_query_both:
  "index_time_query q (Some b) (Some e) =
     ''search _index_earliest='' @ strftime b @ '' _index_latest='' @ strftime e
       @ drop 6 (lstrip (add_missing_search q))"
proof -
  let ?q0 = "add_missing_search q"
  let ?q1 = "(''search _index_latest='' @ strftime e) @ drop 6 (lstrip ?q0)"
  have 1: "re_sub_search (''search _index_latest='' @ strftime e) ?q0 = ?q1"
    by (rule re_sub_search_fires [OF add_missing_search_starts])
  have "startswith (lower (lstrip ?q1)) ''search''"
    using startswith_search_prefixed [of "'' _index_latest='' @ strftime e @ drop 6 (lstrip ?q0)"]
    by simp
  then have 2: "re_sub_search (''search _index_earliest='' @ strftime b) ?q1 =
      (''search _index_earliest='' @ strftime b) @ drop 6 (lstrip ?q1)"
    by (rule re_sub_search_fires)
  have 3: "drop 6 (lstrip ?q1) = '' _index_latest='' @ strftime e @ drop 6 (lstrip ?q0)"
    using lstrip_search [of "'' _index_latest='' @ strftime e @ drop 6 (lstrip ?q0)"] by simp
  show ?thesis
    unfolding index_time_query_def Let_def option.case 1 2 3 by simp
qed

lemma rest_of_added_search: "drop 6 (lstrip (''search '' @ q)) = '' '' @ q"
  using lstrip_search [of "'' '' @ q"] by simp

lemma lower_char_code:
  "of_char (lower_char c) =
     (let n = (of_char c :: nat)
      in if (65 \<le> n \<and> n \<le> 90) \<or> (192 \<le> n \<and> n \<le> 214) \<or> (216 \<le> n \<and> n \<le> 222)
         then n + 32 else n)"
proof -
  have "(of_char c :: nat) < 256" by simp
  then show ?thesis
    by (auto simp: lower_char_def Let_def)
qed

lemma lower_char_letter:
  assumes "97 \<le> (of_char l :: nat)" and "(of_char l :: nat) \<le> 122"
    and "of_char u + 32 = (of_char l :: nat)"
  shows "lower_char c = l \<longleftrightarrow> c = l \<or> c = u"
proof -
  have 1: "lower_char c = l \<longleftrightarrow> (of_char (lower_char c) :: nat) = of_char l"
    and 2: "c = l \<longleftrightarrow> (of_char c :: nat) = of_char l"
    and 3: "c = u \<longleftrightarrow> (of_char c :: nat) = of_char u"
    by simp_all
  show ?thesis
    unfolding 1 2 3 lower_char_code Let_def using assms by (auto simp del: of_char_eq_iff)
qed

lemma lower_char_search:
  "lower_char c = CHR ''s'' \<longleftrightarrow> c = CHR ''s'' \<or> c = CHR ''S''"
  "lower_char c = CHR ''e'' \<longleftrightarrow> c = CHR ''e'' \<or> c = CHR ''E''"
  "lower_char c = CHR ''a'' \<longleftrightarrow> c = CHR ''a'' \<or> c = CHR ''A''"
  "lower_char c = CHR ''r'' \<longleftrightarrow> c = CHR ''r'' \<or> c = CHR ''R''"
  "lower_char c = CHR ''c'' \<longleftrightarrow> c = CHR ''c'' \<or> c = CHR ''C''"
  "lower_char c = CHR ''h'' \<longleftrightarrow> c = CHR ''h'' \<or> c = CHR ''H''"
  by (rule lower_char_letter; simp)+

lemma lower_is_search:
  "map lower_char u = ''search'' \<longleftrightarrow>
     length u = 6 \<and> list_all2 (\<lambda>c l. c = fst l \<or> c = snd l) u (zip ''search'' ''SEARCH'')"
proof (cases "length u = 6")
  case False
  have "length (map lower_char u) = length u" by simp
  with False have "map lower_char u \<noteq> ''search''" by (auto dest: arg_cong [where f = length])
  with False show ?thesis by simp
next
  case True
  then obtain a b c d e f where "u = [a, b, c, d, e, f]"
    by (auto simp: length_Suc_conv eval_nat_numeral)
  then show ?thesis by (simp add: lower_char_search)
qed

lemma spec_begins_with_search_iff:
  "spec_begins_with_search q = startswith (lower (lstrip q)) ''search''"
proof -
  have "startswith (lower (lstrip q)) ''search''
      = (map lower_char (take 6 (dropWhile isspace q)) = ''search'')"
    by (simp add: startswith_search lower_def lstrip_def take_map)
  also have "\<dots> = spec_begins_with_search q"
    unfolding lower_is_search by (auto simp: spec_begins_with_search_def Let_def)
  finally show ?thesis by simp
qed

lemma execute_query_events:
  "events (snd (execute_query w q p)) = events p @ [Post_search (add_missing_search q)]
   \<or> (\<exists>msg. events (snd (execute_query w q p))
          = events p @ [Post_search (add_missing_search q), Log_error msg])"
  by (simp add: execute_query_def emit_def Let_def split: http_reply.split xml_find.split)

lemma execute_query_example: "fst (execute_query example_world q p)"
  by (simp add: execute_query_def example_world_def emit_def Let_def)

lemma time_query_end_only:
  "time_query q None (Some e) =
     ''search latest='' @ strftime e @ drop 6 (lstrip (add_missing_search q))"
  unfolding time_query_def Let_def option.case
  by (simp add: re_sub_search_fires [OF add_missing_search_starts])

lemma time_query_start_only:
  "time_query q (Some b) None =
     ''search earliest='' @ strftime b @ drop 6 (lstrip (add_missing_search q))"
  unfolding time_query_def Let_def option.case
  by (simp add: re_sub_search_fires [OF add_missing_search_starts])

lemma index_time_query_end_only:
  "index_time_query q None (Some e) =
     ''search _index_latest='' @ strftime e @ drop 6 (lstrip (add_missing_search q))"
  unfolding index_time_query_def Let_def option.case
  by (simp add: re_sub_search_fires [OF add_missing_search_starts])

lemma index_time_query_start_only:
  "index_time_query q (Some b) None =
     ''search _index_earliest='' @ strftime b @ drop 6 (lstrip (add_missing_search q))"
  unfolding index_time_query_def Let_def option.case
  by (simp add: re_sub_search_fires [OF add_missing_search_starts])

lemma time_query_example:
  "time_query ''index=main'' (Some example_start) (Some example_end) =
     ''search earliest=01/01/2024:00:00:00 latest=01/01/2024:00:00:10 index=main''"
  by (simp add: time_query_both strftime_example_start strftime_example_end
      add_missing_search_example)

lemma occurs_at_append_left:
  assumes "i + length p \<le> length a"
  shows "occurs_at p i (a @ b) = occurs_at p i a"
  using assms by (auto simp: occurs_at_def)

lemma occurs_at_after: "i = length a \<Longrightarrow> occurs_at p i (a @ p @ b)"
  by (simp add: occurs_at_def)

lemma no_latest_early:
  assumes "occurs_at ''latest='' i (''search earliest='' @ x)"
  shows "7 < i"
proof (rule ccontr)
  assume "\<not> 7 < i"
  then have i: "i \<le> 7" by simp
  then have "occurs_at ''latest='' i (''search earliest='' @ x)
      = occurs_at ''latest='' i ''search earliest=''"
    by (intro occurs_at_append_left) simp
  with assms have "occurs_at ''latest='' i ''search earliest=''" by simp
  moreover from i have "i = 0 \<or> i = 1 \<or> i = 2 \<or> i = 3 \<or> i = 4 \<or> i = 5 \<or> i = 6 \<or> i = 7"
    by arith
  ultimately show False
    by (auto simp: occurs_at_def)
qed

lemma dict_set_fresh:
  assumes "as_key k \<notin> as_key ` fst ` set d"
  shows "dict_set d k v = d @ [(k, v)]"
  using assms by (induction d) auto

lemma fill_obj_zip:
  assumes "length r = length F" and "distinct F" and "i \<le> length F"
  shows "fill_obj (JArray (map JString F)) (JArray r) [i..<length F]
           (zip (map JString (take i F)) (take i r)) = Inr (zip (map JString F) r)"
  using assms(3)
proof (induction "length F - i" arbitrary: i)
  case 0
  then show ?case using assms(1) by simp
next
  case (Suc n)
  then have i: "i < length F" by simp
  have fresh: "as_key (JString (F ! i)) \<notin> as_key ` fst ` set (zip (map JString (take i F)) (take i r))"
  proof
    assume "as_key (JString (F ! i)) \<in> as_key ` fst ` set (zip (map JString (take i F)) (take i r))"
    then obtain kv where kv: "kv \<in> set (zip (map JString (take i F)) (take i r))"
      and eq: "as_key (fst kv) = JString (F ! i)" by auto
    from kv have "fst kv \<in> set (map JString (take i F))"
      using set_zip_leftD [of "fst kv" "snd kv" "map JString (take i F)" "take i r"] by simp
    then obtain x where x: "x \<in> set (take i F)" "fst kv = JString x" by auto
    with eq have "F ! i \<in> set (take i F)" by simp
    then obtain j where "j < i" "F ! j = F ! i"
      using i by (auto simp: in_set_conv_nth)
    with assms(2) i show False by (auto simp: distinct_conv_nth)
  qed
  have step: "zip (map JString (take i F)) (take i r) @ [(JString (F ! i), r ! i)]
      = zip (map JString (take (Suc i) F)) (take (Suc i) r)"
    using i assms(1) by (simp add: take_Suc_conv_app_nth)
  have "fill_obj (JArray (map JString F)) (JArray r) [i..<length F]
           (zip (map JString (take i F)) (take i r))
      = fill_obj (JArray (map JString F)) (JArray r) [Suc i..<length F]
           (zip (map JString (take (Suc i) F)) (take (Suc i) r))"
    using i assms(1) dict_set_fresh [OF fresh, of "r ! i"] step
    by (simp add: upt_conv_Cons bind_err_def setitem_def)
  also have "\<dots> = Inr (zip (map JString F) r)"
    using Suc(1) [of "Suc i"] Suc(2) i by simp
  finally show ?case .
qed

lemma rows_loop_map:
  assumes "map_of kvs ''fields'' = Some (JArray (map JString F))"
    and "\<forall>row \<in> set R. length row = length F" and "distinct F"
  shows "rows_loop (JObject kvs) (map JArray R) acc
           = Inr (acc @ map (\<lambda>row. zip (map JString F) row) R)"
  using assms(2)
proof (induction R arbitrary: acc)
  case Nil
  then show ?case by simp
next
  case (Cons row R)
  then have len: "length row = length F" by simp
  from fill_obj_zip [OF len assms(3), of 0]
  have "fill_obj (JArray (map JString F)) (JArray row) [0..<length F] [] = Inr (zip (map JString F) row)"
    by simp
  with Cons assms(1) show ?case
    by (simp add: bind_err_def)
qed

lemma dict_get_zip:
  assumes "length row = length F" and "distinct F" and "i < length F"
  shows "dict_get (zip (map JString F) row) (JString (F ! i)) = Some (row ! i)"
proof -
  have "map (\<lambda>kv. (as_key (fst kv), snd kv)) (zip (map JString F) row) = zip (map JString F) row"
    by (rule map_idI) (auto dest!: set_zip_leftD)
  moreover have "distinct (map JString F)"
    using assms(2) by (simp add: distinct_map inj_on_def)
  moreover have "map JString F ! i = JString (F ! i)" using assms(3) by simp
  ultimately show ?thesis
    using assms(1,3) map_of_zip_nth [of "map JString F" row i]
    by (simp add: dict_get_def)
qed

lemma authenticate_ok:
  assumes "fst (authenticate w p)"
  shows "events (snd (authenticate w p)) = events p @ [Post_login]"
    and "clock_reads (snd (authenticate w p)) = clock_reads p"
    and "flag_reads (snd (authenticate w p)) = flag_reads p"
    and "polls (snd (authenticate w p)) = polls p"
    and "query_cancelled (self (snd (authenticate w p))) = query_cancelled (self p)"
    and "search_results (self (snd (authenticate w p))) = search_results (self p)"
  using assms
  by (auto simp: authenticate_def emit_def Let_def split: http_reply.splits xml_find.splits if_splits)

lemma execute_query_ok:
  assumes "fst (execute_query w q p)"
  shows "events (snd (execute_query w q p)) = events p @ [Post_search (add_missing_search q)]"
    and "clock_reads (snd (execute_query w q p)) = clock_reads p"
    and "flag_reads (snd (execute_query w q p)) = flag_reads p"
    and "polls (snd (execute_query w q p)) = polls p"
    and "query_cancelled (self (snd (execute_query w q p))) = query_cancelled (self p)"
    and "search_results (self (snd (execute_query w q p))) = search_results (self p)"
  using assms
  by (auto simp: execute_query_def emit_def Let_def split: http_reply.splits xml_find.splits if_splits)

lemma query_after_prelude:
  assumes "reaches_polling w q p d"
  shows "query w q p =
     (case poll w d (polling_start w q p) of
        None \<Rightarrow> None
      | Some (Returned b, p') \<Rightarrow> Some (Inr b, p')
      | Some (Left_loop, p') \<Rightarrow>
          if \<not> fst (read_query_cancelled w p')
          then Some (Inr True, snd (download_search_results w (snd (read_query_cancelled w p'))))
          else Some (Inr True, snd (read_query_cancelled w p')))"
  using assms
  unfolding reaches_polling_def query_def polling_start_def
  by (auto simp: Let_def case_prod_beta now_def split: option.splits loop_exit.splits prod.splits)

lemma polling_start_fields:
  assumes "reaches_polling w q p d"
  shows "events (polling_start w q p) = events p @ [Post_login, Post_search (add_missing_search q)]"
    and "clock_reads (polling_start w q p) = clock_reads p + 2"
    and "flag_reads (polling_start w q p) = flag_reads p"
    and "polls (polling_start w q p) = polls p"
    and "query_cancelled (self (polling_start w q p)) = query_cancelled (self p)"
    and "search_results (self (polling_start w q p)) = search_results (self p)"
    and "query_start_time (self (polling_start w q p)) = Some (clock w (Suc (clock_reads p)))"
proof -
  from assms have a: "fst (authenticate w (snd (now w p)))"
    and e: "fst (execute_query w q (snd (authenticate w (snd (now w p)))))"
    by (simp_all add: reaches_polling_def)
  note A = authenticate_ok [OF a]
  note E = execute_query_ok [OF e]
  show "events (polling_start w q p) = events p @ [Post_login, Post_search (add_missing_search q)]"
    and "clock_reads (polling_start w q p) = clock_reads p + 2"
    and "flag_reads (polling_start w q p) = flag_reads p"
    and "polls (polling_start w q p) = polls p"
    and "query_cancelled (self (polling_start w q p)) = query_cancelled (self p)"
    and "search_results (self (polling_start w q p)) = search_results (self p)"
    and "query_start_time (self (polling_start w q p)) = Some (clock w (Suc (clock_reads p)))"
    unfolding polling_start_def Let_def
    using A E by (simp_all add: now_def)
qed

lemma read_query_cancelled_fields:
  "events (snd (read_query_cancelled w p)) = events p"
  "clock_reads (snd (read_query_cancelled w p)) = clock_reads p"
  "flag_reads (snd (read_query_cancelled w p)) = Suc (flag_reads p)"
  "polls (snd (read_query_cancelled w p)) = polls p"
  "search_results (self (snd (read_query_cancelled w p))) = search_results (self p)"
  "query_start_time (self (snd (read_query_cancelled w p))) = query_start_time (self p)"
  "query_cancelled (self (snd (read_query_cancelled w p))) = fst (read_query_cancelled w p)"
  "fst (read_query_cancelled w p) = (query_cancelled (self p) \<or> cancel_called w (flag_reads p))"
  by (simp_all add: read_query_cancelled_def cancel_def Let_def)

lemma is_job_completed_pending:
  assumes "status_reply w (polls p) = Response 200 text" and "isDone_search text = Some CHR ''0''"
    and "query_start_time (self p) = Some t"
  shows "fst (is_job_completed w p) = Some False"
    and "events (snd (is_job_completed w p)) = events p @ [Get_status]"
    and "clock_reads (snd (is_job_completed w p)) = Suc (clock_reads p)"
    and "flag_reads (snd (is_job_completed w p)) = flag_reads p"
    and "polls (snd (is_job_completed w p)) = Suc (polls p)"
    and "self (snd (is_job_completed w p)) = self p"
  using assms by (simp_all add: is_job_completed_def emit_def now_def Let_def)

lemma is_job_completed_failed:
  assumes "status_reply w (polls p) = Raised
      \<or> (\<exists>code text. status_reply w (polls p) = Response code text \<and> code \<noteq> 200)"
  shows "fst (is_job_completed w p) = None"
    and "\<exists>msg. events (snd (is_job_completed w p)) = events p @ [Get_status, Log_error msg]"
    and "clock_reads (snd (is_job_completed w p)) = clock_reads p"
    and "flag_reads (snd (is_job_completed w p)) = flag_reads p"
    and "polls (snd (is_job_completed w p)) = Suc (polls p)"
    and "self (snd (is_job_completed w p)) = self p"
  using assms by (auto simp: is_job_completed_def emit_def now_def Let_def)

lemma is_job_completed_unparsed:
  assumes "status_reply w (polls p) = Response 200 text" and "isDone_search text = None"
  shows "fst (is_job_completed w p) = Some False"
  using assms by (simp add: is_job_completed_def emit_def Let_def)

lemma read_not_cancelled:
  assumes "\<not> query_cancelled (self p)" and "\<not> cancel_called w (flag_reads p)"
  shows "\<not> fst (read_query_cancelled w p)"
    and "self (snd (read_query_cancelled w p)) = self p"
  using assms by (simp_all add: read_query_cancelled_def Let_def)

lemma poll_pending:
  assumes "\<not> query_cancelled (self p)" and "\<not> cancel_called w (flag_reads p)"
    and "status_reply w (polls p) = Response 200 text" and "isDone_search text = Some CHR ''0''"
    and "query_start_time (self p) = Some t"
  shows "\<exists>p1. poll w d p =
            (if d < clock w (Suc (clock_reads p))
             then Some (Returned False, emit (Log_error ''splunk query {0} timed out'') p1)
             else poll w d (emit Sleep p1))
          \<and> events p1 = events p @ [Get_status]
          \<and> clock_reads p1 = clock_reads p + 2
          \<and> flag_reads p1 = Suc (flag_reads p)
          \<and> polls p1 = Suc (polls p)
          \<and> self p1 = self p"
proof -
  let ?r = "snd (read_query_cancelled w p)"
  let ?j = "snd (is_job_completed w ?r)"
  note R = read_not_cancelled [OF assms(1,2)] read_query_cancelled_fields [of w p]
  have "status_reply w (polls ?r) = Response 200 text" "query_start_time (self ?r) = Some t"
    using assms(3,5) R by simp_all
  note J = is_job_completed_pending [OF this(1) assms(4) this(2)]
  have "poll w d p =
            (if d < clock w (Suc (clock_reads p))
             then Some (Returned False, emit (Log_error ''splunk query {0} timed out'') (snd (now w ?j)))
             else poll w d (emit Sleep (snd (now w ?j))))"
    apply (subst poll.simps)
    using R(1) J(1,3) R(4)
    by (simp add: case_prod_beta now_def)
  moreover have "events (snd (now w ?j)) = events p @ [Get_status]"
    "clock_reads (snd (now w ?j)) = clock_reads p + 2"
    "flag_reads (snd (now w ?j)) = Suc (flag_reads p)"
    "polls (snd (now w ?j)) = Suc (polls p)"
    "self (snd (now w ?j)) = self p"
    using J R by (simp_all add: now_def)
  ultimately show ?thesis by blast
qed

lemma poll_failed:
  assumes "\<not> query_cancelled (self p)" and "\<not> cancel_called w (flag_reads p)"
    and "status_reply w (polls p) = Raised
      \<or> (\<exists>code text. status_reply w (polls p) = Response code text \<and> code \<noteq> 200)"
  shows "\<exists>p1 msg. poll w d p = Some (Returned False, p1)
          \<and> events p1 = events p @ [Get_status, Log_error msg]
          \<and> polls p1 = Suc (polls p)
          \<and> self p1 = self p"
proof -
  let ?r = "snd (read_query_cancelled w p)"
  let ?j = "snd (is_job_completed w ?r)"
  note R = read_not_cancelled [OF assms(1,2)] read_query_cancelled_fields [of w p]
  have "status_reply w (polls ?r) = Raised
      \<or> (\<exists>code text. status_reply w (polls ?r) = Response code text \<and> code \<noteq> 200)"
    using assms(3) R by simp
  note J = is_job_completed_failed [OF this]
  have "poll w d p = Some (Returned False, ?j)"
    apply (subst poll.simps)
    using R(1) J(1)
    by (simp add: case_prod_beta)
  moreover obtain msg where "events ?j = events p @ [Get_status, Log_error msg]"
    using J(2) R by auto
  moreover have "polls ?j = Suc (polls p)" "self ?j = self p"
    using J R by simp_all
  ultimately show ?thesis by blast
qed

lemma poll_times_out_at:
  assumes "\<not> query_cancelled (self p)"
    and "\<forall>j \<le> k. \<not> cancel_called w (flag_reads p + j)"
    and "\<forall>j \<le> k. \<exists>body. status_reply w (polls p + j) = Response 200 body
           \<and> isDone_search body = Some CHR ''0''"
    and "\<forall>j < k. \<not> d < clock w (clock_reads p + 1 + 2 * j)"
    and "d < clock w (clock_reads p + 1 + 2 * k)"
    and "query_start_time (self p) = Some t"
  shows "\<exists>p'. poll w d p = Some (Returned False, p')
          \<and> events p' = events p @ concat (replicate k [Get_status, Sleep])
               @ [Get_status, Log_error ''splunk query {0} timed out'']
          \<and> polls p' = polls p + k + 1
          \<and> self p' = self p"
  using assms
proof (induction k arbitrary: p)
  case 0
  then have nc: "\<not> cancel_called w (flag_reads p)"
    and late: "d < clock w (Suc (clock_reads p))"
    by simp_all
  from "0.prems"(3) obtain body where
    s: "status_reply w (polls p) = Response 200 body" "isDone_search body = Some CHR ''0''"
    by auto
  from poll_pending [OF "0.prems"(1) nc s "0.prems"(6), of d] late
  obtain p1 where
    "poll w d p = Some (Returned False, emit (Log_error ''splunk query {0} timed out'') p1)"
    "events p1 = events p @ [Get_status]" "polls p1 = Suc (polls p)" "self p1 = self p"
    by auto
  then have "poll w d p = Some (Returned False, emit (Log_error ''splunk query {0} timed out'') p1)
      \<and> events (emit (Log_error ''splunk query {0} timed out'') p1)
          = events p @ concat (replicate 0 [Get_status, Sleep])
              @ [Get_status, Log_error ''splunk query {0} timed out'']
      \<and> polls (emit (Log_error ''splunk query {0} timed out'') p1) = polls p + 0 + 1
      \<and> self (emit (Log_error ''splunk query {0} timed out'') p1) = self p"
    by (simp add: emit_def)
  then show ?case by blast
next
  case (Suc k)
  from Suc.prems(2) have nc: "\<not> cancel_called w (flag_reads p)" by (metis add.right_neutral le0)
  from Suc.prems(3) obtain body where
    s: "status_reply w (polls p) = Response 200 body" "isDone_search body = Some CHR ''0''"
    by (metis add.right_neutral le0)
  from Suc.prems(4) have nt: "\<not> d < clock w (Suc (clock_reads p))"
    by (metis Suc_eq_plus1 add.right_neutral mult_0_right zero_less_Suc)
  from poll_pending [OF Suc.prems(1) nc s Suc.prems(6), of d] nt
  obtain p1 where p1: "poll w d p = poll w d (emit Sleep p1)"
    "events p1 = events p @ [Get_status]" "clock_reads p1 = clock_reads p + 2"
    "flag_reads p1 = Suc (flag_reads p)" "polls p1 = Suc (polls p)" "self p1 = self p"
    by auto
  let ?n = "emit Sleep p1"
  have a: "\<not> query_cancelled (self ?n)" using p1 Suc.prems(1) by (simp add: emit_def)
  have b: "\<forall>j \<le> k. \<not> cancel_called w (flag_reads ?n + j)"
  proof (intro allI impI)
    fix j assume "j \<le> k"
    then have "Suc j \<le> Suc k" by simp
    with Suc.prems(2) have "\<not> cancel_called w (flag_reads p + Suc j)" by blast
    then show "\<not> cancel_called w (flag_reads ?n + j)" using p1 by (simp add: emit_def)
  qed
  have c: "\<forall>j \<le> k. \<exists>body. status_reply w (polls ?n + j) = Response 200 body
           \<and> isDone_search body = Some CHR ''0''"
  proof (intro allI impI)
    fix j assume "j \<le> k"
    then have "Suc j \<le> Suc k" by simp
    with Suc.prems(3) have "\<exists>body. status_reply w (polls p + Suc j) = Response 200 body
           \<and> isDone_search body = Some CHR ''0''" by blast
    then show "\<exists>body. status_reply w (polls ?n + j) = Response 200 body
           \<and> isDone_search body = Some CHR ''0''" using p1 by (simp add: emit_def)
  qed
  have e: "\<forall>j < k. \<not> d < clock w (clock_reads ?n + 1 + 2 * j)"
  proof (intro allI impI)
    fix j assume "j < k"
    then have "Suc j < Suc k" by simp
    with Suc.prems(4) have "\<not> d < clock w (clock_reads p + 1 + 2 * Suc j)" by blast
    then show "\<not> d < clock w (clock_reads ?n + 1 + 2 * j)" using p1 by (simp add: emit_def)
  qed
  have f: "d < clock w (clock_reads ?n + 1 + 2 * k)"
    using p1 Suc.prems(5) by (simp add: emit_def)
  have g: "query_start_time (self ?n) = Some t" using p1 Suc.prems(6) by (simp add: emit_def)
  from Suc.IH [OF a b c e f g] obtain p' where
    "poll w d ?n = Some (Returned False, p')"
    "events p' = events ?n @ concat (replicate k [Get_status, Sleep])
        @ [Get_status, Log_error ''splunk query {0} timed out'']"
    "polls p' = polls ?n + k + 1" "self p' = self ?n" by blast
  with p1 have "poll w d p = Some (Returned False, p')
          \<and> events p' = events p @ concat (replicate (Suc k) [Get_status, Sleep])
               @ [Get_status, Log_error ''splunk query {0} timed out'']
          \<and> polls p' = polls p + Suc k + 1
          \<and> self p' = self p"
    by (simp add: emit_def)
  then show ?case by blast
qed

lemma deadline_of_reaches_polling:
  assumes "reaches_polling w q p timeout_date"
  shows "\<exists>td. create_timedelta (query_timeout (self p)) = Inr td
           \<and> timeout_date = clock w (clock_reads p) + total_seconds td * 1000000"
proof -
  from assms obtain td where td: "create_timedelta (query_timeout (self p)) = Inr td"
    and d: "datetime_add (clock w (clock_reads p)) td = Inr timeout_date"
    by (auto simp: reaches_polling_def bind_err_def split: sum.splits)
  from d create_timedelta_microseconds [OF td]
  have "timeout_date = clock w (clock_reads p) + total_seconds td * 1000000"
    by (simp add: datetime_add_def Let_def split: if_splits)
  with td show ?thesis by blast
qed

lemma poll_fails_after:
  assumes "\<not> query_cancelled (self p)"
    and "\<forall>j \<le> n. \<not> cancel_called w (flag_reads p + j)"
    and "\<forall>j < n. \<exists>body. status_reply w (polls p + j) = Response 200 body
           \<and> isDone_search body = Some CHR ''0''"
    and "\<forall>j < n. \<not> d < clock w (clock_reads p + 1 + 2 * j)"
    and "query_start_time (self p) = Some t"
    and "status_reply w (polls p + n) = Raised
      \<or> (\<exists>code body. status_reply w (polls p + n) = Response code body \<and> code \<noteq> 200)"
  shows "\<exists>p' msg. poll w d p = Some (Returned False, p')
          \<and> events p' = events p @ concat (replicate n [Get_status, Sleep])
               @ [Get_status, Log_error msg]
          \<and> polls p' = polls p + n + 1
          \<and> self p' = self p"
  using assms
proof (induction n arbitrary: p)
  case 0
  then have "\<not> cancel_called w (flag_reads p)"
    and "status_reply w (polls p) = Raised
      \<or> (\<exists>code body. status_reply w (polls p) = Response code body \<and> code \<noteq> 200)"
    by simp_all
  from poll_failed [OF "0.prems"(1) this, of d] show ?case by auto
next
  case (Suc n)
  from Suc.prems(2) have nc: "\<not> cancel_called w (flag_reads p)" by (metis add.right_neutral le0)
  from Suc.prems(3) obtain body where
    s: "status_reply w (polls p) = Response 200 body" "isDone_search body = Some CHR ''0''"
    by (metis add.right_neutral zero_less_Suc)
  from Suc.prems(4) have nt: "\<not> d < clock w (Suc (clock_reads p))"
    by (metis Suc_eq_plus1 add.right_neutral mult_0_right zero_less_Suc)
  from poll_pending [OF Suc.prems(1) nc s Suc.prems(5), of d] nt
  obtain p1 where p1: "poll w d p = poll w d (emit Sleep p1)"
    "events p1 = events p @ [Get_status]" "clock_reads p1 = clock_reads p + 2"
    "flag_reads p1 = Suc (flag_reads p)" "polls p1 = Suc (polls p)" "self p1 = self p"
    by auto
  let ?n = "emit Sleep p1"
  have a: "\<not> query_cancelled (self ?n)" using p1 Suc.prems(1) by (simp add: emit_def)
  have b: "\<forall>j \<le> n. \<not> cancel_called w (flag_reads ?n + j)"
  proof (intro allI impI)
    fix j assume "j \<le> n"
    then have "Suc j \<le> Suc n" by simp
    with Suc.prems(2) have "\<not> cancel_called w (flag_reads p + Suc j)" by blast
    then show "\<not> cancel_called w (flag_reads ?n + j)" using p1 by (simp add: emit_def)
  qed
  have c: "\<forall>j < n. \<exists>body. status_reply w (polls ?n + j) = Response 200 body
           \<and> isDone_search body = Some CHR ''0''"
  proof (intro allI impI)
    fix j assume "j < n"
    then have "Suc j < Suc n" by simp
    with Suc.prems(3) have "\<exists>body. status_reply w (polls p + Suc j) = Response 200 body
           \<and> isDone_search body = Some CHR ''0''" by blast
    then show "\<exists>body. status_reply w (polls ?n + j) = Response 200 body
           \<and> isDone_search body = Some CHR ''0''" using p1 by (simp add: emit_def)
  qed
  have e: "\<forall>j < n. \<not> d < clock w (clock_reads ?n + 1 + 2 * j)"
  proof (intro allI impI)
    fix j assume "j < n"
    then have "Suc j < Suc n" by simp
    with Suc.prems(4) have "\<not> d < clock w (clock_reads p + 1 + 2 * Suc j)" by blast
    then show "\<not> d < clock w (clock_reads ?n + 1 + 2 * j)" using p1 by (simp add: emit_def)
  qed
  have f: "query_start_time (self ?n) = Some t" using p1 Suc.prems(5) by (simp add: emit_def)
  have g: "status_reply w (polls ?n + n) = Raised
      \<or> (\<exists>code body. status_reply w (polls ?n + n) = Response code body \<and> code \<noteq> 200)"
    using p1 Suc.prems(6) by (simp add: emit_def)
  from Suc.IH [OF a b c e f g] obtain p' msg where
    "poll w d ?n = Some (Returned False, p')"
    "events p' = events ?n @ concat (replicate n [Get_status, Sleep]) @ [Get_status, Log_error msg]"
    "polls p' = polls ?n + n + 1" "self p' = self ?n" by blast
  with p1 have "poll w d p = Some (Returned False, p')
          \<and> events p' = events p @ concat (replicate (Suc n) [Get_status, Sleep])
               @ [Get_status, Log_error msg]
          \<and> polls p' = polls p + Suc n + 1
          \<and> self p' = self p"
    by (simp add: emit_def)
  then show ?case by blast
qed

lemma reaches_polling_example:
  "reaches_polling example_world ''index=main'' example_run example_deadline"
  "reaches_polling status_failure_world ''index=main'' example_run example_deadline"
  "reaches_polling never_done_world ''index=main'' example_run example_deadline"
  "reaches_polling example_world ''index=main'' (example_run\<lparr>self := cancel example_session\<rparr>)
     example_deadline"
  "reaches_polling never_done_world ''index=main'' short_timeout_run short_deadline"
  by code_simp+

lemma isDone_pending_body: "isDone_search (status_body CHR ''0'') = Some CHR ''0''"
  by code_simp

lemma add_missing_search_index_main: "add_missing_search ''index=main'' = ''search index=main''"
  by (simp add: add_missing_search_def startswith_search lstrip_def lower_def lower_char_def
      isspace_def)

lemma replicate_two: "concat (replicate 2 xs) = xs @ xs"
  by (simp add: numeral_2_eq_2)

section \<open>Claims\<close>

subsection \<open>C4: \<open>create_timedelta\<close>\<close>

text \<open>
  C4, as the code has it.  Let \<open>timespec\<close> split at its colons into at most four
  components, each of which \<open>int\<close> accepts, and let the total be
  \<open>days * 86400 + hours * 3600 + minutes * 60 + seconds\<close>, the components read right to
  left and the missing leading ones taken as zero.  When the total is a duration
  \<open>timedelta\<close> can hold, at most 999999999 whole days in magnitude, \<open>create_timedelta\<close>
  returns a duration of that many seconds.  Whenever it is not, \<open>create_timedelta\<close>
  raises \<open>OverflowError\<close>.
\<close>

theorem create_timedelta_total_seconds:
  assumes "split CHR '':'' timespec = cs" and "length cs \<le> 4" and "map py_int cs = map Inr vs"
  shows "(- 999999999 \<le> spec_total_seconds vs div 86400
          \<and> spec_total_seconds vs div 86400 \<le> 999999999 \<longrightarrow>
            (\<exists>td. create_timedelta timespec = Inr td
                \<and> total_seconds td = spec_total_seconds vs))
       \<and> (spec_total_seconds vs div 86400 < - 999999999
          \<or> 999999999 < spec_total_seconds vs div 86400 \<longrightarrow>
            create_timedelta timespec = Inl OverflowError)"
proof -
  from create_timedelta_components [OF assms] obtain d h m s where
    c: "create_timedelta timespec = new_timedelta d s m h"
    and t: "spec_total_seconds vs = d * 86400 + s + m * 60 + h * 3600"
    by blast
  have 1: "\<exists>td. create_timedelta timespec = Inr td \<and> total_seconds td = spec_total_seconds vs"
    if "- 999999999 \<le> spec_total_seconds vs div 86400"
      and "spec_total_seconds vs div 86400 \<le> 999999999"
    unfolding c using new_timedelta_total [OF t that] .
  have 2: "create_timedelta timespec = Inl OverflowError"
    if "spec_total_seconds vs div 86400 < - 999999999
        \<or> 999999999 < spec_total_seconds vs div 86400"
    unfolding c using new_timedelta_overflow [OF t that] .
  from 1 2 show ?thesis by blast
qed

text \<open>
  The specification's four examples, and two strings whose total is out of range, one
  on each side.
\<close>

theorem create_timedelta_total_seconds_witness:
  "(\<exists>td. create_timedelta ''05'' = Inr td \<and> total_seconds td = 5)
   \<and> (\<exists>td. create_timedelta ''10:05'' = Inr td \<and> total_seconds td = 605)
   \<and> (\<exists>td. create_timedelta ''02:10:05'' = Inr td \<and> total_seconds td = 7805)
   \<and> (\<exists>td. create_timedelta ''1:02:10:05'' = Inr td \<and> total_seconds td = 94205)
   \<and> create_timedelta ''999999999:24:00:00'' = Inl OverflowError
   \<and> create_timedelta ''-999999999:00:00:-1'' = Inl OverflowError"
proof -
  have a: "split CHR '':'' ''05'' = [''05'']"
    "split CHR '':'' ''10:05'' = [''10'', ''05'']"
    "split CHR '':'' ''02:10:05'' = [''02'', ''10'', ''05'']"
    "split CHR '':'' ''1:02:10:05'' = [''1'', ''02'', ''10'', ''05'']"
    "split CHR '':'' ''999999999:24:00:00'' = [''999999999'', ''24'', ''00'', ''00'']"
    "split CHR '':'' ''-999999999:00:00:-1'' = [''-999999999'', ''00'', ''00'', ''-1'']"
    by simp_all
  have b: "map py_int [''05''] = map Inr [5]"
    "map py_int [''10'', ''05''] = map Inr [10, 5]"
    "map py_int [''02'', ''10'', ''05''] = map Inr [2, 10, 5]"
    "map py_int [''1'', ''02'', ''10'', ''05''] = map Inr [1, 2, 10, 5]"
    "map py_int [''999999999'', ''24'', ''00'', ''00''] = map Inr [999999999, 24, 0, 0]"
    "map py_int [''-999999999'', ''00'', ''00'', ''-1''] = map Inr [- 999999999, 0, 0, - 1]"
    by code_simp+
  have 1: "\<exists>td. create_timedelta ''05'' = Inr td \<and> total_seconds td = 5"
    using create_timedelta_total_seconds [OF a(1) _ b(1)]
    by (simp add: spec_total_seconds_simps)
  have 2: "\<exists>td. create_timedelta ''10:05'' = Inr td \<and> total_seconds td = 605"
    using create_timedelta_total_seconds [OF a(2) _ b(2)]
    by (simp add: spec_total_seconds_simps)
  have 3: "\<exists>td. create_timedelta ''02:10:05'' = Inr td \<and> total_seconds td = 7805"
    using create_timedelta_total_seconds [OF a(3) _ b(3)]
    by (simp add: spec_total_seconds_simps)
  have 4: "\<exists>td. create_timedelta ''1:02:10:05'' = Inr td \<and> total_seconds td = 94205"
    using create_timedelta_total_seconds [OF a(4) _ b(4)]
    by (simp add: spec_total_seconds_simps)
  have 5: "create_timedelta ''999999999:24:00:00'' = Inl OverflowError"
    using create_timedelta_total_seconds [OF a(5) _ b(5)]
    by (simp add: spec_total_seconds_simps)
  have 6: "create_timedelta ''-999999999:00:00:-1'' = Inl OverflowError"
    using create_timedelta_total_seconds [OF a(6) _ b(6)]
    by (simp add: spec_total_seconds_simps)
  from 1 2 3 4 5 6 show ?thesis by blast
qed

text \<open>
  The claim as written, a duration for every such string, fails beyond that range: four
  integer components that add up to more than \<open>timedelta.max\<close> make the \<open>timedelta\<close>
  constructor raise \<open>OverflowError\<close>.
\<close>

theorem create_timedelta_overflow:
  "create_timedelta ''1000000000:00:00:00'' = Inl OverflowError"
  by code_simp

subsection \<open>C1: the order of the two clauses\<close>

text \<open>
  C1, as the code has it.  For every base query and every pair of datetimes, the text
  that \<open>query_with_time\<close> builds is \<open>search earliest=<start> latest=<end>\<close> followed by
  what came after the leading \<open>search\<close> of the base query, each bound written by
  \<open>strftime\<close>.  The clause \<open>latest=\<close> is injected first, and the injection of
  \<open>earliest=\<close> right after the keyword then pushes it to the right: \<open>earliest=<start>\<close>
  stands at offset 7, \<open>latest=<end>\<close> right after it and a space, and \<open>latest=\<close> occurs
  nowhere at or before offset 7.  A bound whose year has four digits, 1000 to 9999, is
  written as \<open>MM/DD/YYYY:HH:MM:SS\<close>, which is 19 characters, and \<open>latest=<end>\<close> then
  stands at offset 36; the year of an earlier bound is written with the digits it has.
\<close>

theorem time_query_clause_order:
  "time_query q (Some time_start) (Some time_end) =
       ''search earliest='' @ strftime time_start @ '' latest='' @ strftime time_end
         @ drop 6 (lstrip (add_missing_search q))
   \<and> occurs_at (''earliest='' @ strftime time_start) 7
        (time_query q (Some time_start) (Some time_end))
   \<and> occurs_at (''latest='' @ strftime time_end) (17 + length (strftime time_start))
        (time_query q (Some time_start) (Some time_end))
   \<and> (\<forall>i. occurs_at ''latest='' i (time_query q (Some time_start) (Some time_end)) \<longrightarrow> 7 < i)
   \<and> (1000 \<le> year time_start \<and> year time_start \<le> 9999 \<longrightarrow>
         strftime time_start = spec_time_format time_start
       \<and> occurs_at (''latest='' @ strftime time_end) 36
            (time_query q (Some time_start) (Some time_end)))
   \<and> (1000 \<le> year time_end \<and> year time_end \<le> 9999 \<longrightarrow>
         strftime time_end = spec_time_format time_end)"
proof -
  let ?r = "time_query q (Some time_start) (Some time_end)"
  let ?rest = "drop 6 (lstrip (add_missing_search q))"
  have eq: "?r = ''search earliest='' @ strftime time_start @ '' latest='' @ strftime time_end
               @ ?rest"
    by (rule time_query_both)
  have a: "occurs_at (''earliest='' @ strftime time_start) 7 ?r"
    unfolding eq by (simp add: occurs_at_def)
  have "occurs_at (''latest='' @ strftime time_end) (17 + length (strftime time_start))
      ((''search earliest='' @ strftime time_start @ '' '') @ (''latest='' @ strftime time_end)
         @ ?rest)"
    by (rule occurs_at_after) simp
  then have b: "occurs_at (''latest='' @ strftime time_end) (17 + length (strftime time_start)) ?r"
    unfolding eq by simp
  have c: "\<forall>i. occurs_at ''latest='' i ?r \<longrightarrow> 7 < i"
    using no_latest_early unfolding eq by simp
  have d: "strftime time_start = spec_time_format time_start
       \<and> occurs_at (''latest='' @ strftime time_end) 36 ?r"
    if "1000 \<le> year time_start \<and> year time_start \<le> 9999"
  proof -
    from that have s: "strftime time_start = spec_time_format time_start"
      by (simp add: strftime_four_digits)
    then have "17 + length (strftime time_start) = 36"
      by (simp add: length_spec_time_format)
    with b s show ?thesis by simp
  qed
  have e: "1000 \<le> year time_end \<and> year time_end \<le> 9999 \<longrightarrow>
         strftime time_end = spec_time_format time_end"
    by (simp add: strftime_four_digits)
  from eq a b c d e show ?thesis by blast
qed

text \<open>The specification's example, from midnight to ten seconds past.\<close>

theorem time_query_clause_order_witness:
  "time_query ''index=main'' (Some example_start) (Some example_end) =
       ''search earliest=01/01/2024:00:00:00 latest=01/01/2024:00:00:10 index=main''
   \<and> occurs_at ''earliest=01/01/2024:00:00:00'' 7
        (time_query ''index=main'' (Some example_start) (Some example_end))
   \<and> occurs_at ''latest=01/01/2024:00:00:10'' 36
        (time_query ''index=main'' (Some example_start) (Some example_end))
   \<and> \<not> occurs_at ''latest='' 7 (time_query ''index=main'' (Some example_start) (Some example_end))
   \<and> spec_time_format example_start = ''01/01/2024:00:00:00''
   \<and> spec_time_format example_end = ''01/01/2024:00:00:10''"
proof -
  have y: "1000 \<le> year example_start \<and> year example_start \<le> 9999"
    "1000 \<le> year example_end \<and> year example_end \<le> 9999"
    by (simp_all add: example_start_def example_end_def)
  note t = time_query_clause_order [of "''index=main''" example_start example_end,
      unfolded strftime_example_start strftime_example_end add_missing_search_example]
  from t have e: "time_query ''index=main'' (Some example_start) (Some example_end) =
      ''search earliest=01/01/2024:00:00:00 latest=01/01/2024:00:00:10 index=main''"
    by simp
  from t have "occurs_at (''earliest='' @ ''01/01/2024:00:00:00'') 7
        (time_query ''index=main'' (Some example_start) (Some example_end))"
    by blast
  then have a: "occurs_at ''earliest=01/01/2024:00:00:00'' 7
        (time_query ''index=main'' (Some example_start) (Some example_end))"
    by simp
  from t y have "occurs_at (''latest='' @ ''01/01/2024:00:00:10'') 36
        (time_query ''index=main'' (Some example_start) (Some example_end))"
    by blast
  then have b: "occurs_at ''latest=01/01/2024:00:00:10'' 36
        (time_query ''index=main'' (Some example_start) (Some example_end))"
    by simp
  from t have n:
    "\<not> occurs_at ''latest='' 7 (time_query ''index=main'' (Some example_start) (Some example_end))"
    by (metis less_irrefl)
  from t y have s: "spec_time_format example_start = ''01/01/2024:00:00:00''"
    "spec_time_format example_end = ''01/01/2024:00:00:10''"
    by simp_all
  from e a b n s show ?thesis by blast
qed

text \<open>
  The claim as written, \<open>latest=\<close> before \<open>earliest=\<close>, fails on that example: the first
  \<open>earliest=\<close> is at offset 7 and the first \<open>latest=\<close> at offset 36.
\<close>

theorem time_query_latest_after_earliest:
  "str_find (time_query ''index=main'' (Some example_start) (Some example_end)) ''earliest='' = Some 7
   \<and> str_find (time_query ''index=main'' (Some example_start) (Some example_end)) ''latest='' = Some 36"
  unfolding time_query_example by code_simp

subsection \<open>C5: the \<open>search\<close> prefix\<close>

text \<open>
  C5.  "Begins with the literal token \<open>search\<close>" is \<open>spec_begins_with_search\<close>: after
  the leading whitespace, the first six characters are the letters of \<open>search\<close>, each in
  either case; what follows them does not matter.

  For a query that does not begin so, the guard returns \<open>search \<close> followed by the query,
  and the texts that \<open>query_with_time\<close> and \<open>query_with_index_time\<close> build are that one
  keyword, the two clauses, a space and the query as it was given.  For a query that does,
  the guard returns it as it is, and the built texts are the keyword \<open>search\<close>, the two
  clauses, and what followed the keyword in the query: there is no second keyword.  The
  guard is idempotent, so the second guard, in \<open>execute_query\<close>, changes nothing in a
  text that went through the first: the first request \<open>execute_query\<close> makes posts the
  guarded text, and for a text built by \<open>query_with_time\<close> that is the built text itself.
\<close>

theorem search_prefix_once:
  "(\<not> spec_begins_with_search q \<longrightarrow>
        add_missing_search q = ''search '' @ q
      \<and> time_query q (Some b) (Some e) =
          ''search earliest='' @ strftime b @ '' latest='' @ strftime e @ '' '' @ q
      \<and> index_time_query q (Some b) (Some e) =
          ''search _index_earliest='' @ strftime b @ '' _index_latest='' @ strftime e @ '' '' @ q)
   \<and> (spec_begins_with_search q \<longrightarrow>
        add_missing_search q = q
      \<and> time_query q (Some b) (Some e) =
          ''search earliest='' @ strftime b @ '' latest='' @ strftime e @ drop 6 (lstrip q)
      \<and> index_time_query q (Some b) (Some e) =
          ''search _index_earliest='' @ strftime b @ '' _index_latest='' @ strftime e
            @ drop 6 (lstrip q))
   \<and> spec_begins_with_search (add_missing_search q)
   \<and> add_missing_search (add_missing_search q) = add_missing_search q
   \<and> add_missing_search (time_query q time_start time_end) = time_query q time_start time_end
   \<and> add_missing_search (index_time_query q time_start time_end)
        = index_time_query q time_start time_end
   \<and> (events (snd (execute_query w q p)) = events p @ [Post_search (add_missing_search q)]
      \<or> (\<exists>msg. events (snd (execute_query w q p))
             = events p @ [Post_search (add_missing_search q), Log_error msg]))
   \<and> (events (snd (execute_query w (time_query q time_start time_end) p))
        = events p @ [Post_search (time_query q time_start time_end)]
      \<or> (\<exists>msg. events (snd (execute_query w (time_query q time_start time_end) p))
             = events p @ [Post_search (time_query q time_start time_end), Log_error msg]))"
proof -
  have 1: "add_missing_search q = ''search '' @ q
      \<and> time_query q (Some b) (Some e) =
          ''search earliest='' @ strftime b @ '' latest='' @ strftime e @ '' '' @ q
      \<and> index_time_query q (Some b) (Some e) =
          ''search _index_earliest='' @ strftime b @ '' _index_latest='' @ strftime e @ '' '' @ q"
    if "\<not> spec_begins_with_search q"
  proof -
    from that have g: "add_missing_search q = ''search '' @ q"
      by (simp add: spec_begins_with_search_iff add_missing_search_def)
    show ?thesis
      unfolding time_query_both index_time_query_both g rest_of_added_search by simp
  qed
  have 2: "add_missing_search q = q
      \<and> time_query q (Some b) (Some e) =
          ''search earliest='' @ strftime b @ '' latest='' @ strftime e @ drop 6 (lstrip q)
      \<and> index_time_query q (Some b) (Some e) =
          ''search _index_earliest='' @ strftime b @ '' _index_latest='' @ strftime e
            @ drop 6 (lstrip q)"
    if "spec_begins_with_search q"
  proof -
    from that have g: "add_missing_search q = q"
      by (simp add: spec_begins_with_search_iff add_missing_search_def)
    show ?thesis
      unfolding time_query_both index_time_query_both g by simp
  qed
  have 3: "spec_begins_with_search (add_missing_search q)"
    unfolding spec_begins_with_search_iff by (rule add_missing_search_starts)
  have 4: "add_missing_search (add_missing_search q) = add_missing_search q"
    by (rule add_missing_search_fixed [OF add_missing_search_starts])
  have 5: "add_missing_search (time_query q time_start time_end) = time_query q time_start time_end"
    by (rule add_missing_search_fixed [OF time_query_starts])
  have 6: "add_missing_search (index_time_query q time_start time_end)
        = index_time_query q time_start time_end"
    by (rule add_missing_search_fixed [OF index_time_query_starts])
  note 7 = execute_query_events [of w q p]
  note 8 = execute_query_events [of w "time_query q time_start time_end" p, unfolded 5]
  from 1 2 3 4 5 6 7 8 show ?thesis by blast
qed

text \<open>
  A query without the keyword, one with it after two spaces and in another letter case,
  and one whose first word only begins with it; the runs are those of the example
  world, where the submission is accepted.
\<close>

theorem search_prefix_once_witness:
  "\<not> spec_begins_with_search ''index=main''
   \<and> add_missing_search ''index=main'' = ''search index=main''
   \<and> time_query ''index=main'' (Some example_start) (Some example_end) =
       ''search earliest=01/01/2024:00:00:00 latest=01/01/2024:00:00:10 index=main''
   \<and> index_time_query ''index=main'' (Some example_start) (Some example_end) =
       ''search _index_earliest=01/01/2024:00:00:00 _index_latest=01/01/2024:00:00:10 index=main''
   \<and> spec_begins_with_search ''  Search index=main''
   \<and> add_missing_search ''  Search index=main'' = ''  Search index=main''
   \<and> time_query ''  Search index=main'' (Some example_start) (Some example_end) =
       ''search earliest=01/01/2024:00:00:00 latest=01/01/2024:00:00:10 index=main''
   \<and> spec_begins_with_search ''searchlight''
   \<and> add_missing_search ''searchlight'' = ''searchlight''
   \<and> events (snd (execute_query example_world ''index=main'' example_run))
       = [Post_search ''search index=main'']
   \<and> events (snd (execute_query example_world
         (time_query ''index=main'' (Some example_start) (Some example_end)) example_run))
       = [Post_search
           ''search earliest=01/01/2024:00:00:00 latest=01/01/2024:00:00:10 index=main'']"
proof -
  have a: "\<not> spec_begins_with_search ''index=main''"
    by (simp add: spec_begins_with_search_def isspace_def)
  have b: "spec_begins_with_search ''  Search index=main''"
    by (simp add: spec_begins_with_search_def isspace_def)
  have c: "spec_begins_with_search ''searchlight''"
    by (simp add: spec_begins_with_search_def isspace_def)
  have d: "drop 6 (lstrip ''  Search index=main'') = '' index=main''"
    by (simp add: lstrip_def isspace_def)
  have n: "events example_run = []" by (simp add: example_run_def)
  note t = search_prefix_once [where q = "''index=main''" and b = example_start and e = example_end
      and time_start = "Some example_start" and time_end = "Some example_end"
      and w = example_world and p = example_run,
      unfolded strftime_example_start strftime_example_end n]
  note u = search_prefix_once [where q = "''  Search index=main''" and b = example_start and e = example_end
      and time_start = "Some example_start" and time_end = "Some example_end"
      and w = example_world and p = example_run,
      unfolded strftime_example_start strftime_example_end d]
  note v = search_prefix_once [where q = "''searchlight''" and b = example_start and e = example_end
      and time_start = "Some example_start" and time_end = "Some example_end"
      and w = example_world and p = example_run]
  from t a have 1: "add_missing_search ''index=main'' = ''search index=main''"
    by simp
  from t a have 2: "time_query ''index=main'' (Some example_start) (Some example_end) =
       ''search earliest=01/01/2024:00:00:00 latest=01/01/2024:00:00:10 index=main''"
    by simp
  from t a have 3: "index_time_query ''index=main'' (Some example_start) (Some example_end) =
       ''search _index_earliest=01/01/2024:00:00:00 _index_latest=01/01/2024:00:00:10 index=main''"
    by simp
  from u b have 4: "add_missing_search ''  Search index=main'' = ''  Search index=main''"
    by blast
  from u b have 5: "time_query ''  Search index=main'' (Some example_start) (Some example_end) =
       ''search earliest=01/01/2024:00:00:00 latest=01/01/2024:00:00:10 index=main''"
    by simp
  from v c have 6: "add_missing_search ''searchlight'' = ''searchlight''"
    by blast
  have "length (events (snd (execute_query example_world q example_run))) = 1" for q
    using execute_query_ok(1) [OF execute_query_example, of q example_run] n by simp
  note len = this [of "''index=main''"]
    this [of "time_query ''index=main'' (Some example_start) (Some example_end)"]
  from t len(1) have 7: "events (snd (execute_query example_world ''index=main'' example_run))
       = [Post_search ''search index=main'']"
    unfolding 1 by auto
  from t len(2) have 8: "events (snd (execute_query example_world
         (time_query ''index=main'' (Some example_start) (Some example_end)) example_run))
       = [Post_search
           ''search earliest=01/01/2024:00:00:00 latest=01/01/2024:00:00:10 index=main'']"
    unfolding 2 by auto
  from a b c 1 2 3 4 5 6 7 8 show ?thesis by blast
qed

subsection \<open>C7: a null bound\<close>

text \<open>
  C7, as the code has it.  \<open>query_with_time\<close> and \<open>query_with_index_time\<close> open with
  \<open>assert isinstance(time_start, datetime.datetime)\<close> and the same for \<open>time_end\<close>.  While
  assertions are on, which is how Python runs unless it is started with \<open>-O\<close>, a call with
  a null bound raises \<open>AssertionError\<close> before any text is built and before any request:
  the run is unchanged.  Only with assertions off does such a call go through, and then
  the text it hands to \<open>query\<close> omits the clause of the null bound and carries the other
  clause as usual.
\<close>

theorem null_bound_rejected:
  assumes "time_start = None \<or> time_end = None"
  shows "(debug w \<longrightarrow>
            query_with_time w q time_start time_end p = Some (Inl AssertionError, p)
          \<and> query_with_index_time w q time_start time_end p = Some (Inl AssertionError, p))
     \<and> (\<not> debug w \<longrightarrow>
            query_with_time w q time_start time_end p
              = query w (time_query q time_start time_end) p
          \<and> query_with_index_time w q time_start time_end p
              = query w (index_time_query q time_start time_end) p)
     \<and> time_query q None (Some e) =
          ''search latest='' @ strftime e @ drop 6 (lstrip (add_missing_search q))
     \<and> time_query q (Some b) None =
          ''search earliest='' @ strftime b @ drop 6 (lstrip (add_missing_search q))
     \<and> index_time_query q None (Some e) =
          ''search _index_latest='' @ strftime e @ drop 6 (lstrip (add_missing_search q))
     \<and> index_time_query q (Some b) None =
          ''search _index_earliest='' @ strftime b @ drop 6 (lstrip (add_missing_search q))"
  using assms
  by (auto simp: query_with_time_def query_with_index_time_def time_query_end_only
      time_query_start_only index_time_query_end_only index_time_query_start_only)

theorem null_bound_rejected_witness:
  "debug example_world
   \<and> query_with_time example_world ''index=main'' None (Some example_end) example_run
      = Some (Inl AssertionError, example_run)
   \<and> query_with_index_time example_world ''index=main'' None (Some example_end) example_run
      = Some (Inl AssertionError, example_run)
   \<and> time_query ''index=main'' None (Some example_end)
      = ''search latest=01/01/2024:00:00:10 index=main''
   \<and> index_time_query ''index=main'' (Some example_start) None
      = ''search _index_earliest=01/01/2024:00:00:00 index=main''"
proof -
  have d: "debug example_world" by (simp add: example_world_def)
  note t = null_bound_rejected [where time_start = None and time_end = "Some example_end"
      and w = example_world and q = "''index=main''" and p = example_run and e = example_end
      and b = example_start]
  from t d have 1:
    "query_with_time example_world ''index=main'' None (Some example_end) example_run
      = Some (Inl AssertionError, example_run)"
    "query_with_index_time example_world ''index=main'' None (Some example_end) example_run
      = Some (Inl AssertionError, example_run)"
    by simp_all
  from t have 2: "time_query ''index=main'' None (Some example_end)
      = ''search latest=01/01/2024:00:00:10 index=main''"
    by (simp add: strftime_example_end add_missing_search_example)
  from t have 3: "index_time_query ''index=main'' (Some example_start) None
      = ''search _index_earliest=01/01/2024:00:00:00 index=main''"
    by (simp add: strftime_example_start add_missing_search_example)
  from d 1 2 3 show ?thesis by simp
qed

text \<open>
  The claim as written, that such a call does not fail, is false of Python as it runs by
  default: with no start bound the call raises.
\<close>

theorem null_start_bound_raises:
  "query_with_time example_world ''index=main'' None (Some example_end) example_run
     = Some (Inl AssertionError, example_run)"
  by (simp add: query_with_time_def example_world_def)

subsection \<open>C8: \<open>json\<close>\<close>

text \<open>
  C8, as the code has it.  For a stored payload whose \<open>fields\<close> are the names \<open>F\<close>,
  pairwise distinct, and whose \<open>rows\<close> are the lists \<open>R\<close>, each as long as \<open>F\<close>, \<open>json\<close>
  returns one record per row, in the order of \<open>R\<close>, and each record maps \<open>F[i]\<close> to
  \<open>row[i]\<close> for every index \<open>i\<close>.  With no payload (\<open>None\<close>) it returns \<open>None\<close>.
\<close>

theorem json_records:
  assumes "search_results s = JObject kvs"
    and "map_of kvs ''fields'' = Some (JArray (map JString F))"
    and "map_of kvs ''rows'' = Some (JArray (map JArray R))"
    and "\<forall>row \<in> set R. length row = length F"
    and "distinct F"
  shows "json s = Inr (Some (map (\<lambda>row. zip (map JString F) row) R))
       \<and> (\<forall>row \<in> set R. \<forall>i < length F.
             dict_get (zip (map JString F) row) (JString (F ! i)) = Some (row ! i))
       \<and> json (s\<lparr>search_results := JNull\<rparr>) = Inr None"
proof -
  have 1: "json s = Inr (Some (map (\<lambda>row. zip (map JString F) row) R))"
    using assms(1,3) rows_loop_map [OF assms(2,4,5), of "[]"]
    by (simp add: json_def bind_err_def)
  have 2: "\<forall>row \<in> set R. \<forall>i < length F.
             dict_get (zip (map JString F) row) (JString (F ! i)) = Some (row ! i)"
    using assms(4,5) dict_get_zip by blast
  have 3: "json (s\<lparr>search_results := JNull\<rparr>) = Inr None"
    by (simp add: json_def)
  from 1 2 3 show ?thesis by blast
qed

text \<open>The specification's example, and a new object.\<close>

theorem json_records_witness:
  "json (example_session\<lparr>search_results := example_payload\<rparr>) =
     Inr (Some [[(JString ''a'', JString ''1''), (JString ''b'', JString ''x'')],
                [(JString ''a'', JString ''2''), (JString ''b'', JString ''y'')]])
   \<and> dict_get [(JString ''a'', JString ''2''), (JString ''b'', JString ''y'')] (JString ''b'')
       = Some (JString ''y'')
   \<and> json example_session = Inr None"
proof -
  have p: "search_results (example_session\<lparr>search_results := example_payload\<rparr>) =
      JObject [(''fields'', JArray [JString ''a'', JString ''b'']),
               (''rows'', JArray [JArray [JString ''1'', JString ''x''],
                                  JArray [JString ''2'', JString ''y'']])]"
    by (simp add: example_payload_def)
  note t = json_records [OF p, of "[''a'', ''b'']"
      "[[JString ''1'', JString ''x''], [JString ''2'', JString ''y'']]"]
  have n: "example_session\<lparr>search_results := example_payload, search_results := JNull\<rparr>
      = example_session"
    by (simp add: example_session_def)
  from t have a: "json (example_session\<lparr>search_results := example_payload\<rparr>) =
     Inr (Some [[(JString ''a'', JString ''1''), (JString ''b'', JString ''x'')],
                [(JString ''a'', JString ''2''), (JString ''b'', JString ''y'')]])"
    by simp
  from t have b: "json example_session = Inr None"
    unfolding n by simp
  have c: "dict_get [(JString ''a'', JString ''2''), (JString ''b'', JString ''y'')]
      (JString ''b'') = Some (JString ''y'')"
    by (simp add: dict_get_def)
  from a b c show ?thesis by simp
qed

text \<open>
  Without distinct names the claim fails: a name that occurs twice leaves one entry, which
  holds the value of its last column, so the record does not map \<open>F[0]\<close> to \<open>row[0]\<close>.
\<close>

theorem json_repeated_field:
  "json (example_session\<lparr>search_results := repeated_field_payload\<rparr>)
     = Inr (Some [[(JString ''a'', JString ''2'')]])"
  by (simp add: json_def repeated_field_payload_def bind_err_def setitem_def upt_rec)

subsection \<open>C10: cancelled before the first poll\<close>

text \<open>
  C10.  When the deadline is computed and authentication and submission succeed, and the
  cancellation flag is set by the time the loop first reads it (it was set on the session
  before the call, or a \<open>cancel()\<close> lands before that first reading), \<open>query\<close> returns
  \<open>True\<close>.  The only requests of the call are the login and the submission, so there is
  no status check and no download, and \<open>search_results\<close> is what it was before the call.
\<close>

theorem cancelled_before_first_poll:
  assumes "reaches_polling w q p timeout_date"
    and "query_cancelled (self p) \<or> cancel_called w (flag_reads p)"
  shows "\<exists>p'. query w q p = Some (Inr True, p')
     \<and> events p' = events p @ [Post_login, Post_search (add_missing_search q)]
     \<and> polls p' = polls p
     \<and> search_results (self p') = search_results (self p)"
proof -
  let ?s = "polling_start w q p"
  let ?p1 = "snd (read_query_cancelled w ?s)"
  let ?p2 = "snd (read_query_cancelled w ?p1)"
  note S = polling_start_fields [OF assms(1)]
  have c1: "fst (read_query_cancelled w ?s)"
    using assms(2) S by (simp add: read_query_cancelled_fields)
  then have loop: "poll w timeout_date ?s = Some (Left_loop, ?p1)"
    by (subst poll.simps) simp
  have c2: "fst (read_query_cancelled w ?p1)"
    using c1 by (simp add: read_query_cancelled_fields)
  have "query w q p = Some (Inr True, ?p2)"
    unfolding query_after_prelude [OF assms(1)] loop using c2 by simp
  moreover have "events ?p2 = events p @ [Post_login, Post_search (add_missing_search q)]"
    "polls ?p2 = polls p" "search_results (self ?p2) = search_results (self p)"
    using S by (simp_all add: read_query_cancelled_fields)
  ultimately show ?thesis by blast
qed

theorem cancelled_before_first_poll_witness:
  "reaches_polling example_world ''index=main'' (example_run\<lparr>self := cancel example_session\<rparr>)
     example_deadline
   \<and> query_cancelled (self (example_run\<lparr>self := cancel example_session\<rparr>))
   \<and> (\<exists>p'. query example_world ''index=main'' (example_run\<lparr>self := cancel example_session\<rparr>)
              = Some (Inr True, p')
          \<and> events p' = [Post_login, Post_search ''search index=main'']
          \<and> polls p' = 0
          \<and> search_results (self p') = JNull)"
proof -
  have c: "query_cancelled (self (example_run\<lparr>self := cancel example_session\<rparr>))"
    by (simp add: cancel_def)
  from cancelled_before_first_poll [OF reaches_polling_example(4)] c
  have "\<exists>p'. query example_world ''index=main'' (example_run\<lparr>self := cancel example_session\<rparr>)
              = Some (Inr True, p')
          \<and> events p' = [Post_login, Post_search ''search index=main'']
          \<and> polls p' = 0
          \<and> search_results (self p') = JNull"
    by (simp add: add_missing_search_index_main example_run_def example_session_def cancel_def)
  with c reaches_polling_example(4) show ?thesis by blast
qed

subsection \<open>C6: a job that is never done\<close>

text \<open>
  C6, as the code has it.  The deadline is the configured timeout added to the clock
  reading taken on entry to \<open>query\<close>, before authentication and submission, not when
  polling begins.  Each iteration that finds the job pending reads the clock once in
  \<open>is_job_completed\<close> and once for the test against the deadline, so the test of
  iteration \<open>j\<close> is reading \<open>3 + 2 * j\<close> of the call.  When polling is reached, nobody
  cancels before the flag is read in the iterations 0 to \<open>k\<close>, the status requests of
  these iterations are answered 200 with \<open>isDone\<close> 0, and iteration \<open>k\<close> is the first
  whose test reads a time later than the deadline, \<open>query\<close> returns \<open>False\<close> in
  iteration \<open>k\<close>: the requests of the call are the login, the submission and \<open>k + 1\<close>
  status checks with \<open>k\<close> sleeps between them, the last message logged is the timeout,
  there is no download and \<open>search_results\<close> is unchanged.
\<close>

theorem times_out_at_first_late_check:
  assumes "reaches_polling w q p timeout_date"
    and "\<not> query_cancelled (self p)"
    and "\<forall>j \<le> k. \<not> cancel_called w (flag_reads p + j)"
    and "\<forall>j \<le> k. \<exists>body. status_reply w (polls p + j) = Response 200 body
           \<and> isDone_search body = Some CHR ''0''"
    and "\<forall>j < k. \<not> timeout_date < clock w (clock_reads p + 3 + 2 * j)"
    and "timeout_date < clock w (clock_reads p + 3 + 2 * k)"
  shows "(\<exists>td. create_timedelta (query_timeout (self p)) = Inr td
            \<and> timeout_date = clock w (clock_reads p) + total_seconds td * 1000000)
       \<and> (\<exists>p'. query w q p = Some (Inr False, p')
            \<and> events p' = events p @ [Post_login, Post_search (add_missing_search q)]
                 @ concat (replicate k [Get_status, Sleep])
                 @ [Get_status, Log_error ''splunk query {0} timed out'']
            \<and> polls p' = polls p + k + 1
            \<and> search_results (self p') = search_results (self p))"
proof -
  let ?s = "polling_start w q p"
  note S = polling_start_fields [OF assms(1)]
  have a: "\<not> query_cancelled (self ?s)" using assms(2) S by simp
  have b: "\<forall>j \<le> k. \<not> cancel_called w (flag_reads ?s + j)" using assms(3) S by simp
  have c: "\<forall>j \<le> k. \<exists>body. status_reply w (polls ?s + j) = Response 200 body
           \<and> isDone_search body = Some CHR ''0''" using assms(4) S by simp
  have e: "\<forall>j < k. \<not> timeout_date < clock w (clock_reads ?s + 1 + 2 * j)"
    using assms(5) S by (simp add: numeral_3_eq_3)
  have f: "timeout_date < clock w (clock_reads ?s + 1 + 2 * k)"
    using assms(6) S by (simp add: numeral_3_eq_3)
  from poll_times_out_at [OF a b c e f S(7)] obtain p' where p':
    "poll w timeout_date ?s = Some (Returned False, p')"
    "events p' = events ?s @ concat (replicate k [Get_status, Sleep])
        @ [Get_status, Log_error ''splunk query {0} timed out'']"
    "polls p' = polls ?s + k + 1" "self p' = self ?s" by blast
  have "query w q p = Some (Inr False, p')"
    unfolding query_after_prelude [OF assms(1)] p'(1) by simp
  moreover have "events p' = events p @ [Post_login, Post_search (add_missing_search q)]
            @ concat (replicate k [Get_status, Sleep])
            @ [Get_status, Log_error ''splunk query {0} timed out'']"
    using p'(2) S(1) by simp
  moreover have "polls p' = polls p + k + 1" "search_results (self p') = search_results (self p)"
    using p'(3,4) S by simp_all
  ultimately have "\<exists>p'. query w q p = Some (Inr False, p')
            \<and> events p' = events p @ [Post_login, Post_search (add_missing_search q)]
                 @ concat (replicate k [Get_status, Sleep])
                 @ [Get_status, Log_error ''splunk query {0} timed out'']
            \<and> polls p' = polls p + k + 1
            \<and> search_results (self p') = search_results (self p)"
    by blast
  with deadline_of_reaches_polling [OF assms(1)] show ?thesis by blast
qed

text \<open>
  A job that stays pending, a clock that advances one second from one reading to the
  next, and a timeout of three seconds: the deadline is three seconds after the first
  reading, the test of the first iteration reads exactly that time, which is not later,
  and the test of the second reads two seconds more.  The call returns \<open>False\<close> after
  two status checks and one sleep.
\<close>

theorem times_out_at_first_late_check_witness:
  "reaches_polling never_done_world ''index=main'' short_timeout_run short_deadline
   \<and> clock never_done_world 3 = short_deadline
   \<and> short_deadline < clock never_done_world 5
   \<and> (\<exists>td. create_timedelta ''00:00:03'' = Inr td \<and> total_seconds td = 3
          \<and> short_deadline = clock never_done_world 0 + total_seconds td * 1000000)
   \<and> (\<exists>p'. query never_done_world ''index=main'' short_timeout_run = Some (Inr False, p')
          \<and> events p' = [Post_login, Post_search ''search index=main'', Get_status, Sleep,
                          Get_status, Log_error ''splunk query {0} timed out'']
          \<and> polls p' = 2
          \<and> search_results (self p') = JNull)"
proof -
  have r: "clock_reads short_timeout_run = 0" "flag_reads short_timeout_run = 0"
    "polls short_timeout_run = 0" "events short_timeout_run = []"
    "search_results (self short_timeout_run) = JNull"
    "query_timeout (self short_timeout_run) = ''00:00:03''"
    by (simp_all add: short_timeout_run_def example_run_def example_session_def)
  have a: "\<not> query_cancelled (self short_timeout_run)"
    by (simp add: short_timeout_run_def example_run_def example_session_def)
  have b: "\<forall>j \<le> 1. \<not> cancel_called never_done_world (flag_reads short_timeout_run + j)"
    by (simp add: never_done_world_def example_world_def)
  have c: "\<forall>j \<le> 1. \<exists>body. status_reply never_done_world (polls short_timeout_run + j)
        = Response 200 body \<and> isDone_search body = Some CHR ''0''"
    by (simp add: never_done_world_def isDone_pending_body)
  have k: "clock never_done_world 0 = 63839664000000000"
    "clock never_done_world 3 = short_deadline"
    "clock never_done_world 5 = 63839664005000000"
    by (simp_all add: never_done_world_def example_world_def short_deadline_def)
  have d: "\<forall>j < 1. \<not> short_deadline < clock never_done_world (clock_reads short_timeout_run + 3 + 2 * j)"
    using k(2) r(1) by simp
  have e: "short_deadline < clock never_done_world (clock_reads short_timeout_run + 3 + 2 * 1)"
    using k(3) r(1) by (simp add: short_deadline_def)
  note t = times_out_at_first_late_check [OF reaches_polling_example(5) a b c d e, unfolded r]
  from t obtain td where td: "create_timedelta ''00:00:03'' = Inr td"
    "short_deadline = clock never_done_world 0 + total_seconds td * 1000000"
    by auto
  from td(2) k(1) have "total_seconds td = 3"
    by (simp add: short_deadline_def)
  with td have 1: "\<exists>td. create_timedelta ''00:00:03'' = Inr td \<and> total_seconds td = 3
          \<and> short_deadline = clock never_done_world 0 + total_seconds td * 1000000"
    by blast
  from t [THEN conjunct2]
  have 2: "\<exists>p'. query never_done_world ''index=main'' short_timeout_run = Some (Inr False, p')
          \<and> events p' = [Post_login, Post_search ''search index=main'', Get_status, Sleep,
                          Get_status, Log_error ''splunk query {0} timed out'']
          \<and> polls p' = 2
          \<and> search_results (self p') = JNull"
    by (simp add: add_missing_search_index_main numeral_2_eq_2)
  from e k(3) r(1) have 3: "short_deadline < clock never_done_world 5"
    by (simp add: short_deadline_def)
  from reaches_polling_example(5) k(2) 1 2 3 show ?thesis by blast
qed

text \<open>
  The claim as written covers every run in which the status stays 0, and fails on one
  that is cancelled while the job is pending: the loop ends at its next test of the flag
  and the call returns \<open>True\<close>, not a failure.
\<close>

theorem query_cancelled_while_pending:
  "map_option fst (query cancelling_world ''index=main'' example_run) = Some (Inr True)
   \<and> map_option (\<lambda>r. events (snd r)) (query cancelling_world ''index=main'' example_run)
       = Some [Post_login, Post_search ''search index=main'', Get_status, Sleep]"
  by code_simp

subsection \<open>C3: a failed status check\<close>

text \<open>
  C3 does not hold of the code.  \<open>is_job_completed\<close> has three error branches, and each
  logs at the level \<open>error\<close>: the request raises, the reply is not 200, the body holds no
  \<open>isDone\<close> value.  The first two return \<open>None\<close>, the signal on which \<open>query\<close> returns
  \<open>False\<close> at once.  The third returns \<open>False\<close>, the value of a job that is still
  running, so \<open>query\<close> cannot tell the two apart: it sleeps and asks again.  In the run
  below the first status reply is 200 with a body without \<open>isDone\<close>; the method logs the
  error and returns the same value as for the pending reply of \<open>never_done_world\<close>, and
  \<open>query\<close> goes on to a second status check, downloads the results and returns \<open>True\<close>.
\<close>

theorem unparsed_status_keeps_polling:
  "status_reply unparsed_status_world 0 = Response 200 ''<entry/>''
   \<and> isDone_search ''<entry/>'' = None
   \<and> fst (is_job_completed unparsed_status_world
         (polling_start unparsed_status_world ''index=main'' example_run)) = Some False
   \<and> events (snd (is_job_completed unparsed_status_world
         (polling_start unparsed_status_world ''index=main'' example_run)))
       = [Post_login, Post_search ''search index=main'', Get_status,
          Log_error ''could not parse response for isDone value for search job {0}'']
   \<and> fst (is_job_completed never_done_world
         (polling_start never_done_world ''index=main'' example_run)) = Some False
   \<and> map_option fst (query unparsed_status_world ''index=main'' example_run) = Some (Inr True)
   \<and> map_option (\<lambda>r. events (snd r)) (query unparsed_status_world ''index=main'' example_run)
       = Some [Post_login, Post_search ''search index=main'', Get_status,
               Log_error ''could not parse response for isDone value for search job {0}'',
               Sleep, Get_status, Get_results]
   \<and> map_option (\<lambda>r. search_results (self (snd r)))
         (query unparsed_status_world ''index=main'' example_run) = Some example_payload"
  by code_simp

text \<open>
  The other two branches do what the sentence says.  At the first iteration, or at one
  that follows \<open>n\<close> iterations that found the job pending, a status request that raises
  or is answered with a code other than 200 makes \<open>is_job_completed\<close> return \<open>None\<close>, and
  \<open>query\<close> returns \<open>False\<close> at once: that status request is the last request of the
  call, so no further iteration runs and nothing is downloaded.
\<close>

lemma status_error_aborts_polling:
  assumes "reaches_polling w q p timeout_date"
    and "\<not> query_cancelled (self p)"
    and "\<forall>j \<le> n. \<not> cancel_called w (flag_reads p + j)"
    and "\<forall>j < n. \<exists>body. status_reply w (polls p + j) = Response 200 body
           \<and> isDone_search body = Some CHR ''0''"
    and "\<forall>j < n. \<not> timeout_date < clock w (clock_reads p + 3 + 2 * j)"
    and "status_reply w (polls p + n) = Raised
      \<or> (\<exists>code body. status_reply w (polls p + n) = Response code body \<and> code \<noteq> 200)"
  shows "(\<exists>p' msg. query w q p = Some (Inr False, p')
       \<and> events p' = events p @ [Post_login, Post_search (add_missing_search q)]
            @ concat (replicate n [Get_status, Sleep]) @ [Get_status, Log_error msg]
       \<and> polls p' = polls p + n + 1
       \<and> search_results (self p') = search_results (self p))
     \<and> (\<forall>r. status_reply w (polls r) = status_reply w (polls p + n)
            \<longrightarrow> fst (is_job_completed w r) = None)
     \<and> (\<forall>r body. status_reply w (polls r) = Response 200 body \<and> isDone_search body = None
            \<longrightarrow> fst (is_job_completed w r) = Some False)"
proof -
  let ?s = "polling_start w q p"
  note S = polling_start_fields [OF assms(1)]
  have a: "\<not> query_cancelled (self ?s)" using assms(2) S by simp
  have b: "\<forall>j \<le> n. \<not> cancel_called w (flag_reads ?s + j)" using assms(3) S by simp
  have c: "\<forall>j < n. \<exists>body. status_reply w (polls ?s + j) = Response 200 body
           \<and> isDone_search body = Some CHR ''0''" using assms(4) S by simp
  have e: "\<forall>j < n. \<not> timeout_date < clock w (clock_reads ?s + 1 + 2 * j)"
    using assms(5) S by (simp add: numeral_3_eq_3)
  have g: "status_reply w (polls ?s + n) = Raised
      \<or> (\<exists>code body. status_reply w (polls ?s + n) = Response code body \<and> code \<noteq> 200)"
    using assms(6) S by simp
  from poll_fails_after [OF a b c e S(7) g] obtain p' msg where p':
    "poll w timeout_date ?s = Some (Returned False, p')"
    "events p' = events ?s @ concat (replicate n [Get_status, Sleep]) @ [Get_status, Log_error msg]"
    "polls p' = polls ?s + n + 1" "self p' = self ?s" by blast
  have "query w q p = Some (Inr False, p')"
    unfolding query_after_prelude [OF assms(1)] p'(1) by simp
  moreover have "events p' = events p @ [Post_login, Post_search (add_missing_search q)]
            @ concat (replicate n [Get_status, Sleep]) @ [Get_status, Log_error msg]"
    using p'(2) S(1) by simp
  moreover have "polls p' = polls p + n + 1" "search_results (self p') = search_results (self p)"
    using p'(3,4) S by simp_all
  ultimately have main: "\<exists>p' msg. query w q p = Some (Inr False, p')
       \<and> events p' = events p @ [Post_login, Post_search (add_missing_search q)]
            @ concat (replicate n [Get_status, Sleep]) @ [Get_status, Log_error msg]
       \<and> polls p' = polls p + n + 1
       \<and> search_results (self p') = search_results (self p)"
    by blast
  have signal: "\<forall>r. status_reply w (polls r) = status_reply w (polls p + n)
            \<longrightarrow> fst (is_job_completed w r) = None"
    using is_job_completed_failed(1) [of w] assms(6) by simp
  have unparsed: "\<forall>r body. status_reply w (polls r) = Response 200 body \<and> isDone_search body = None
            \<longrightarrow> fst (is_job_completed w r) = Some False"
    using is_job_completed_unparsed by blast
  from main signal unparsed show ?thesis by blast
qed

lemma status_error_aborts_polling_example:
  "reaches_polling status_failure_world ''index=main'' example_run example_deadline
   \<and> status_reply status_failure_world 2 = Response 503 ''Service Unavailable''
   \<and> (\<exists>p' msg. query status_failure_world ''index=main'' example_run = Some (Inr False, p')
         \<and> events p' = [Post_login, Post_search ''search index=main'', Get_status, Sleep,
                         Get_status, Sleep, Get_status, Log_error msg]
         \<and> polls p' = 3
         \<and> search_results (self p') = JNull)"
proof -
  have a: "\<not> query_cancelled (self example_run)"
    by (simp add: example_run_def example_session_def)
  have b: "\<forall>j \<le> 2. \<not> cancel_called status_failure_world (flag_reads example_run + j)"
    by (simp add: status_failure_world_def example_world_def)
  have c: "\<forall>j < 2. \<exists>body. status_reply status_failure_world (polls example_run + j) = Response 200 body
      \<and> isDone_search body = Some CHR ''0''"
    by (simp add: status_failure_world_def example_run_def isDone_pending_body)
  have d: "\<forall>j < 2. \<not> example_deadline < clock status_failure_world (clock_reads example_run + 3 + 2 * j)"
    by (simp add: status_failure_world_def example_world_def example_deadline_def example_run_def)
  have e: "status_reply status_failure_world 2 = Response 503 ''Service Unavailable''"
    by (simp add: status_failure_world_def)
  have "polls example_run + 2 = 2" by (simp add: example_run_def)
  with e have e': "status_reply status_failure_world (polls example_run + 2) = Raised
      \<or> (\<exists>code body. status_reply status_failure_world (polls example_run + 2) = Response code body
            \<and> code \<noteq> 200)"
    by (simp only:) simp
  from status_error_aborts_polling [OF reaches_polling_example(2) a b c d e', THEN conjunct1]
  have "\<exists>p' msg. query status_failure_world ''index=main'' example_run = Some (Inr False, p')
         \<and> events p' = [Post_login, Post_search ''search index=main'', Get_status, Sleep,
                         Get_status, Sleep, Get_status, Log_error msg]
         \<and> polls p' = 3
         \<and> search_results (self p') = JNull"
    by (simp add: add_missing_search_index_main example_run_def example_session_def replicate_two
        numeral_3_eq_3)
  with e reaches_polling_example(2) show ?thesis by blast
qed

subsection \<open>C2: a failed download\<close>

text \<open>
  C2 does not hold of the code.  \<open>download_search_results\<close> returns \<open>False\<close> for a reply
  other than 200 and for a body that is not JSON, but \<open>query\<close> drops that value and
  returns \<open>True\<close>: in both runs below the job completes, the download fails, nothing is
  stored, and the caller is told \<open>True\<close>.
\<close>

theorem query_ignores_failed_download:
  "map_option fst (query failed_download_world ''index=main'' example_run) = Some (Inr True)
   \<and> map_option (\<lambda>r. search_results (self (snd r)))
         (query failed_download_world ''index=main'' example_run) = Some JNull
   \<and> fst (download_search_results failed_download_world example_run) = Some False
   \<and> map_option fst (query bad_json_world ''index=main'' example_run) = Some (Inr True)
   \<and> map_option (\<lambda>r. search_results (self (snd r)))
         (query bad_json_world ''index=main'' example_run) = Some JNull
   \<and> fst (download_search_results bad_json_world example_run) = Some False"
  by code_simp

subsection \<open>C9: \<open>extract_event_timestamp\<close>\<close>

text \<open>
  C9 does not hold of the code.  The helper has a permissive default: without a \<open>_time\<close>
  field, and when the legacy pattern does not match, it logs and returns \<open>local_time()\<close>.
  But the call \<open>parse(event["_time"])\<close> stands outside any \<open>try\<close>, before the legacy
  pattern is tried, so a text that the parser rejects never reaches that default: the
  parser's exception leaves the helper.  The same holds of a \<open>_time\<close> that is not text,
  and of a time zone key that \<open>ZoneInfo\<close> refuses with \<open>ValueError\<close>, since only
  \<open>ZoneInfoNotFoundError\<close> is handled.  Below, the helper raises on the text
  \<open>not a timestamp\<close>, which the legacy pattern does not match either, on a null \<open>_time\<close>,
  and on the example text with the empty string as the time zone.
\<close>

theorem extract_event_timestamp_raises:
  "extract_event_timestamp example_libs ''hunt''
       [(JString ''_time'', JString ''not a timestamp'')] (Some ''UTC'') = ([], Inl ParserError)
   \<and> legacy_match ''not a timestamp'' = None
   \<and> extract_event_timestamp example_libs ''hunt''
       [(JString ''_time'', JNull)] (Some ''UTC'') = ([], Inl TypeError)
   \<and> extract_event_timestamp example_libs ''hunt''
       [(JString ''_time'', JString example_time_text)] (Some []) = ([], Inl ValueError)"
  by code_simp

text \<open>
  The rest of the sentence holds: a record with no \<open>_time\<close> field logs a warning and
  yields \<open>local_time()\<close>, whatever the time zone argument is; and in the example
  libraries, whose parser reads the example text as 10:00:00 UTC, the example yields that
  instant in the zone \<open>UTC\<close>.
\<close>

lemma extract_event_timestamp_missing_time:
  assumes "dict_get event (JString ''_time'') = None"
  shows "extract_event_timestamp lib obj event timezone =
           ([Log_warning ''splunk event missing _time field for {obj}''], Inr (local_time lib))"
  using assms by (simp add: extract_event_timestamp_def)

lemma extract_event_timestamp_example:
  "extract_event_timestamp example_libs ''hunt''
       [(JString ''_time'', JString example_time_text)] (Some ''UTC'')
     = ([], Inr (Aware ten_oclock_utc (Tzinfo ''UTC'')))"
  by code_simp

end
